theory Spec2Isabelle
  imports Complex_Main "HOL-Library.Log_Nat"
begin

section \<open>Single-precision numbers\<close>

text \<open>
  \<^verbatim>\<open>m_boost_amount\<close> and \<^verbatim>\<open>dt\<close> are C++ \<^verbatim>\<open>float\<close>s. A value is a
  NaN, an infinity, or a finite real number on the binary32 grid. The two zeros are one value
  here: every comparison of the source treats them alike, and the member is never the negative
  zero (it is assigned \<^verbatim>\<open>0.0f\<close>, \<^verbatim>\<open>2.5f\<close> or a difference, and an exact zero
  difference is the positive zero under round-to-nearest).
  Each arithmetic operation is rounded to binary32, to nearest, ties to even: the product
  \<^verbatim>\<open>dt*3.5f\<close> first, then the difference. The literals \<^verbatim>\<open>0.0f\<close>, \<^verbatim>\<open>2.5f\<close> and
  \<^verbatim>\<open>3.5f\<close> are floats as they stand.
\<close>

datatype f32 = NaN | NInf | PInf | Fin real

text \<open>\<open>ilog2 x\<close> is the exponent of the binade of a positive \<open>x\<close>: the largest \<open>e\<close> with \<open>2 powi e \<le> x\<close>.\<close>

definition ilog2 :: "real \<Rightarrow> int" where
  "ilog2 x = (if 1 \<le> x then bitlen \<lfloor>x\<rfloor> - 1 else - bitlen (\<lceil>1 / x\<rceil> - 1))"

text \<open>
  Below \<open>2 powi (-126)\<close> the numbers are subnormal and share the exponent \<open>-126\<close>,
  zero included.
\<close>

definition expo :: "real \<Rightarrow> int" where
  "expo x = (if x = 0 then - 126 else max (- 126) (ilog2 \<bar>x\<bar>))"

text \<open>The spacing of the grid around \<open>x\<close>: 24 significant bits.\<close>

definition ulp :: "real \<Rightarrow> real" where
  "ulp x = 2 powi (expo x - 23)"

text \<open>Round to the nearest integer, ties to the even one.\<close>

definition rne :: "real \<Rightarrow> int" where
  "rne y = (let f = \<lfloor>y\<rfloor>; d = y - of_int f in
     if d < 1 / 2 then f else if 1 / 2 < d then f + 1
     else if even f then f else f + 1)"

definition round_f32 :: "real \<Rightarrow> f32" where
  "round_f32 x = (let r = of_int (rne (x / ulp x)) * ulp x in
     if 2 ^ 128 \<le> r then PInf else if r \<le> - (2 ^ 128) then NInf else Fin r)"

text \<open>A real number is a finite \<^verbatim>\<open>float\<close> when it lies on the grid, below \<open>2 ^ 128\<close>.\<close>

definition is_f32 :: "real \<Rightarrow> bool" where
  "is_f32 x = (\<bar>x\<bar> < 2 ^ 128 \<and> of_int \<lfloor>x / ulp x\<rfloor> = x / ulp x)"

fun fmul :: "f32 \<Rightarrow> f32 \<Rightarrow> f32" where
  "fmul NaN _ = NaN"
| "fmul _ NaN = NaN"
| "fmul (Fin a) (Fin b) = round_f32 (a * b)"
| "fmul (Fin a) PInf = (if a = 0 then NaN else if 0 < a then PInf else NInf)"
| "fmul (Fin a) NInf = (if a = 0 then NaN else if 0 < a then NInf else PInf)"
| "fmul PInf (Fin b) = (if b = 0 then NaN else if 0 < b then PInf else NInf)"
| "fmul NInf (Fin b) = (if b = 0 then NaN else if 0 < b then NInf else PInf)"
| "fmul PInf PInf = PInf"
| "fmul PInf NInf = NInf"
| "fmul NInf PInf = NInf"
| "fmul NInf NInf = PInf"

fun fsub :: "f32 \<Rightarrow> f32 \<Rightarrow> f32" where
  "fsub NaN _ = NaN"
| "fsub _ NaN = NaN"
| "fsub (Fin a) (Fin b) = round_f32 (a - b)"
| "fsub (Fin a) PInf = NInf"
| "fsub (Fin a) NInf = PInf"
| "fsub PInf PInf = NaN"
| "fsub NInf NInf = NaN"
| "fsub PInf _ = PInf"
| "fsub NInf _ = NInf"

text \<open>The ordered comparisons: false as soon as one side is a NaN.\<close>

fun flt :: "f32 \<Rightarrow> f32 \<Rightarrow> bool" where
  "flt NaN _ = False"
| "flt _ NaN = False"
| "flt (Fin a) (Fin b) = (a < b)"
| "flt NInf NInf = False"
| "flt NInf _ = True"
| "flt _ NInf = False"
| "flt PInf _ = False"
| "flt _ PInf = True"

definition fgt :: "f32 \<Rightarrow> f32 \<Rightarrow> bool" where
  "fgt a b = flt b a"

definition fle :: "f32 \<Rightarrow> f32 \<Rightarrow> bool" where
  "fle a b = (a \<noteq> NaN \<and> b \<noteq> NaN \<and> \<not> flt b a)"

definition fge :: "f32 \<Rightarrow> f32 \<Rightarrow> bool" where
  "fge a b = fle b a"

section \<open>The engine as seen from \<^verbatim>\<open>post_processing.cpp\<close>\<close>

datatype E_VIDEO_DRIVER_FEATURE =
  EVDF_ARB_GLSL | EVDF_PIXEL_SHADER_2_0 | EVDF_RENDER_TO_TARGET
| EVDF_TEXTURE_NSQUARE | EVDF_TEXTURE_NPOT

datatype E_VERTEX_SHADER_TYPE = EVST_VS_2_0
datatype E_PIXEL_SHADER_TYPE = EPST_PS_2_0
datatype E_MATERIAL_TYPE = EMT_SOLID
datatype E_RENDER_TARGET = ERT_FRAME_BUFFER

text \<open>A texture pointer is \<open>None\<close> when null.\<close>

type_synonym texture = nat
type_synonym dimension2du = "nat \<times> nat"

record SMaterial =
  MaterialType :: int
  Texture0 :: "texture option"
  Wireframe :: bool
  Lighting :: bool
  ZWriteEnable :: bool

record S3DVertex =
  Pos :: "f32 \<times> f32 \<times> f32"
  Normal :: "f32 \<times> f32 \<times> f32"
  Color :: nat
  TCoords :: "f32 \<times> f32"

text \<open>The calls made on the video driver (and on its GPU programming services), in order.\<close>

datatype driver_call =
  QueryFeature E_VIDEO_DRIVER_FEATURE
| GetScreenSize
| AddRenderTargetTexture dimension2du string
| GetGPUProgrammingServices
| AddHighLevelShaderMaterialFromFiles string string E_VERTEX_SHADER_TYPE
    string string E_PIXEL_SHADER_TYPE E_MATERIAL_TYPE
| SetRenderTargetTexture "texture option" bool bool
| SetRenderTargetEnum E_RENDER_TARGET bool bool nat
| SetMaterial SMaterial
| DrawIndexedTriangleList "S3DVertex list" nat "nat list" nat

text \<open>The calls made on the material renderer services handed to the shader callback.\<close>

datatype shader_call =
  SetPixelShaderConstantF string f32 nat
| SetPixelShaderConstantI string int nat

text \<open>
  What the surroundings answer: the driver's feature flags, the screen size,
  \<^verbatim>\<open>dimension2d::getOptimalSize\<close> (engine code, a parameter here), the texture that
  \<^verbatim>\<open>addRenderTargetTexture\<close> returns (\<open>None\<close> when it fails), the material number that
  \<^verbatim>\<open>addHighLevelShaderMaterialFromFiles\<close> returns, the file manager's shader directory
  and the race manager's number of players.
\<close>

record env =
  features :: "E_VIDEO_DRIVER_FEATURE \<Rightarrow> bool"
  screen_size :: dimension2du
  getOptimalSize :: "dimension2du \<Rightarrow> bool \<Rightarrow> bool \<Rightarrow> dimension2du"
  render_target_result :: "texture option"
  material_result :: int
  getShaderDir :: string
  getNumPlayers :: nat

section \<open>The object and what it can change\<close>

record PostProcessing =
  m_supported :: bool
  m_used_pp_this_frame :: bool
  m_boost_amount :: f32
  m_render_target :: "texture option"
  m_material :: SMaterial

text \<open>
  Everything a member function can write: the object, the user-configuration flag
  \<^verbatim>\<open>UserConfigParams::m_postprocess_enabled\<close>, the driver (as the calls it received),
  the log (tag and message of each warning) and the shader services (as the calls received).
\<close>

record world =
  pp :: PostProcessing
  m_postprocess_enabled :: bool
  driver_calls :: "driver_call list"
  warnings :: "(string \<times> string) list"
  shader_calls :: "shader_call list"

definition driver :: "driver_call \<Rightarrow> world \<Rightarrow> world" where
  "driver c w = w\<lparr>driver_calls := driver_calls w @ [c]\<rparr>"

definition warn :: "string \<Rightarrow> string \<Rightarrow> world \<Rightarrow> world" where
  "warn tag msg w = w\<lparr>warnings := warnings w @ [(tag, msg)]\<rparr>"

definition queryFeature :: "env \<Rightarrow> E_VIDEO_DRIVER_FEATURE \<Rightarrow> world \<Rightarrow> bool \<times> world" where
  "queryFeature e f w = (features e f, driver (QueryFeature f) w)"

text \<open>
  The constructor default-constructs the material member and writes \<^verbatim>\<open>m_boost_amount\<close>;
  the other members keep whatever the storage held, which is the second argument. What the
  engine's \<^verbatim>\<open>SMaterial()\<close> constructs is engine code, the first argument here.
\<close>

definition PostProcessing_ctor :: "SMaterial \<Rightarrow> PostProcessing \<Rightarrow> PostProcessing" where
  "PostProcessing_ctor default_material p =
     p\<lparr>m_material := default_material, m_boost_amount := Fin 0\<rparr>"

text \<open>The three capability queries of \<^verbatim>\<open>init\<close>, joined by \<^verbatim>\<open>&&\<close>: a false answer ends them.\<close>

definition query_capabilities :: "env \<Rightarrow> world \<Rightarrow> bool \<times> world" where
  "query_capabilities e w =
     (case queryFeature e EVDF_ARB_GLSL w of (glsl, w1) \<Rightarrow>
        if \<not> glsl then (False, w1)
        else case queryFeature e EVDF_PIXEL_SHADER_2_0 w1 of (ps, w2) \<Rightarrow>
          if \<not> ps then (False, w2)
          else queryFeature e EVDF_RENDER_TO_TARGET w2)"

text \<open>The body of \<^verbatim>\<open>if(m_supported)\<close> in \<^verbatim>\<open>init\<close>.\<close>

definition init_supported :: "env \<Rightarrow> bool \<Rightarrow> bool \<Rightarrow> world \<Rightarrow> world" where
  "init_supported e nonpower nonsquare w =
     (let w1 = driver GetScreenSize w;
          opt = getOptimalSize e (screen_size e) (\<not> nonpower) (\<not> nonsquare);
          w2 = driver (AddRenderTargetTexture opt ''postprocess'') w1;
          w3 = w2\<lparr>pp := (pp w2)\<lparr>m_render_target := render_target_result e\<rparr>\<rparr>;
          w4 = (if m_render_target (pp w3) = None
                then (warn ''PostProcessing''
                        ''Couldn't create the render target for post-processing, disabling it.'' w3)
                      \<lparr>m_postprocess_enabled := False\<rparr>
                else w3);
          w5 = driver GetGPUProgrammingServices w4;
          w6 = driver (AddHighLevelShaderMaterialFromFiles
                         (getShaderDir e @ ''motion_blur.vert'') ''main'' EVST_VS_2_0
                         (getShaderDir e @ ''motion_blur.frag'') ''main'' EPST_PS_2_0
                         EMT_SOLID) w5
      in w6\<lparr>pp := (pp w6)\<lparr>m_material := (m_material (pp w6))
             \<lparr>MaterialType := material_result e,
              Texture0 := m_render_target (pp w6),
              Wireframe := False, Lighting := False, ZWriteEnable := False\<rparr>\<rparr>\<rparr>)"

definition init :: "env \<Rightarrow> world \<Rightarrow> world" where
  "init e w =
     (let w1 = w\<lparr>pp := (pp w)\<lparr>m_supported := False\<rparr>\<rparr> in
      case query_capabilities e w1 of (cap, w2) \<Rightarrow>
      let w3 = (if cap then w2\<lparr>pp := (pp w2)\<lparr>m_supported := True\<rparr>\<rparr> else w2) in
      case queryFeature e EVDF_TEXTURE_NSQUARE w3 of (nonsquare, w4) \<Rightarrow>
      case queryFeature e EVDF_TEXTURE_NPOT w4 of (nonpower, w5) \<Rightarrow>
      let w6 = (if \<not> nonpower
                then warn ''PostProcessing'' ''Only power of two textures are supported.'' w5
                else w5);
          w7 = (if \<not> nonsquare
                then warn ''PostProcessing'' ''Only square textures are supported.'' w6
                else w6)
      in if m_supported (pp w7) then init_supported e nonpower nonsquare w7 else w7)"

definition shut :: "world \<Rightarrow> world" where
  "shut w = (if \<not> m_supported (pp w) then w else w)"

text \<open>The guard that opens \<^verbatim>\<open>beginCapture\<close>, \<^verbatim>\<open>endCapture\<close> and \<^verbatim>\<open>render\<close>.\<close>

definition skipped :: "env \<Rightarrow> world \<Rightarrow> bool" where
  "skipped e w = (\<not> m_supported (pp w) \<or> \<not> m_postprocess_enabled w \<or> 1 < getNumPlayers e)"

definition beginCapture :: "env \<Rightarrow> world \<Rightarrow> world" where
  "beginCapture e w =
     (if skipped e w then w
      else if fle (m_boost_amount (pp w)) (Fin 0)
      then w\<lparr>pp := (pp w)\<lparr>m_used_pp_this_frame := False\<rparr>\<rparr>
      else driver (SetRenderTargetTexture (m_render_target (pp w)) True True)
             (w\<lparr>pp := (pp w)\<lparr>m_used_pp_this_frame := True\<rparr>\<rparr>))"

definition endCapture :: "env \<Rightarrow> world \<Rightarrow> world" where
  "endCapture e w =
     (if skipped e w then w
      else if m_used_pp_this_frame (pp w)
      then driver (SetRenderTargetEnum ERT_FRAME_BUFFER True True 0) w
      else w)"

definition update :: "f32 \<Rightarrow> world \<Rightarrow> world" where
  "update dt w =
     (if fgt (m_boost_amount (pp w)) (Fin 0)
      then let b = fsub (m_boost_amount (pp w)) (fmul dt (Fin (7 / 2)))
           in w\<lparr>pp := (pp w)\<lparr>m_boost_amount := (if flt b (Fin 0) then Fin 0 else b)\<rparr>\<rparr>
      else w)"

definition vertex :: "real \<Rightarrow> real \<Rightarrow> real \<Rightarrow> real \<Rightarrow> real \<Rightarrow> real \<Rightarrow> nat \<Rightarrow> real \<Rightarrow> real
    \<Rightarrow> S3DVertex" where
  "vertex x y z nx ny nz c tu tv =
     \<lparr>Pos = (Fin x, Fin y, Fin z), Normal = (Fin nx, Fin ny, Fin nz), Color = c,
      TCoords = (Fin tu, Fin tv)\<rparr>"

definition white :: nat where
  "white = 0xFFFFFFFF"

definition render :: "env \<Rightarrow> world \<Rightarrow> world" where
  "render e w =
     (if skipped e w then w
      else if \<not> m_used_pp_this_frame (pp w) then w
      else driver (DrawIndexedTriangleList
                     [vertex (- 1) (- 1) 0 0 0 1 white 0 1,
                      vertex (- 1) 1 0 0 0 1 white 0 0,
                      vertex 1 1 0 0 0 1 white 1 0,
                      vertex 1 (- 1) 0 0 0 1 white 1 1] 4
                     [0, 1, 2, 3, 0, 2] 2)
             (driver (SetMaterial (m_material (pp w))) w))"

definition giveBoost :: "world \<Rightarrow> world" where
  "giveBoost w = w\<lparr>pp := (pp w)\<lparr>m_boost_amount := Fin (5 / 2)\<rparr>\<rparr>"

definition OnSetConstants :: "int \<Rightarrow> world \<Rightarrow> world" where
  "OnSetConstants user_data w =
     w\<lparr>shader_calls := shader_calls w @
         [SetPixelShaderConstantF ''boost_amount'' (m_boost_amount (pp w)) 1,
          SetPixelShaderConstantI ''color_buffer'' 0 1]\<rparr>"

section \<open>Sequences of calls\<close>

text \<open>The member functions other than \<^verbatim>\<open>init\<close>, each with its arguments.\<close>

datatype call =
  Shut | BeginCapture | EndCapture | Update f32 | Render | GiveBoost | SetConstants int

fun exec :: "env \<Rightarrow> call \<Rightarrow> world \<Rightarrow> world" where
  "exec e Shut w = shut w"
| "exec e BeginCapture w = beginCapture e w"
| "exec e EndCapture w = endCapture e w"
| "exec e (Update dt) w = update dt w"
| "exec e Render w = render e w"
| "exec e GiveBoost w = giveBoost w"
| "exec e (SetConstants user_data) w = OnSetConstants user_data w"

text \<open>A run: each call finds its own surroundings (the number of players may have changed).\<close>

fun run :: "(env \<times> call) list \<Rightarrow> world \<Rightarrow> world" where
  "run [] w = w"
| "run ((e, c) # cs) w = run cs (exec e c w)"

text \<open>A float value, and a finite one.\<close>

fun valid_f32 :: "f32 \<Rightarrow> bool" where
  "valid_f32 (Fin x) = is_f32 x"
| "valid_f32 _ = True"

fun finite_f32 :: "f32 \<Rightarrow> bool" where
  "finite_f32 (Fin x) = is_f32 x"
| "finite_f32 _ = False"

text \<open>Successive calls of \<^verbatim>\<open>update\<close>, one for each \<^verbatim>\<open>dt\<close> of the list.\<close>

fun updates :: "f32 list \<Rightarrow> world \<Rightarrow> world" where
  "updates [] w = w"
| "updates (dt # dts) w = updates dts (update dt w)"

text \<open>
  A list of \<^verbatim>\<open>dt\<close> is exact from the amount \<open>b\<close> when no update rounds: either its
  \<^verbatim>\<open>dt * 3.5\<close> is at least the amount left, or the product and the difference are
  floats and the rest of the list is exact from the difference.
\<close>

fun exact_from :: "real \<Rightarrow> real list \<Rightarrow> bool" where
  "exact_from b [] = True"
| "exact_from b (d # ds) =
     (b \<le> d * (7 / 2) \<or>
      is_f32 (d * (7 / 2)) \<and> is_f32 (b - d * (7 / 2)) \<and> exact_from (b - d * (7 / 2)) ds)"





text \<open>The shader files that a sequence of driver calls loads.\<close>

fun shader_files :: "driver_call list \<Rightarrow> string list" where
  "shader_files [] = []"
| "shader_files (AddHighLevelShaderMaterialFromFiles vs _ _ ps _ _ _ # cs) =
     vs # ps # shader_files cs"
| "shader_files (_ # cs) = shader_files cs"

text \<open>The render targets that a sequence of driver calls allocates.\<close>

fun allocations :: "driver_call list \<Rightarrow> (dimension2du \<times> string) list" where
  "allocations [] = []"
| "allocations (AddRenderTargetTexture d n # cs) = (d, n) # allocations cs"
| "allocations (_ # cs) = allocations cs"

section \<open>Concrete surroundings and states\<close>

text \<open>A driver with every feature, an allocation that succeeds, one player.\<close>

definition env_ok :: env where
  "env_ok = \<lparr>features = (\<lambda>f. True), screen_size = (1024, 768),
     getOptimalSize = (\<lambda>d p s. d), render_target_result = Some 1, material_result = 24,
     getShaderDir = ''data/shaders/'', getNumPlayers = 1\<rparr>"

text \<open>The same driver without GLSL; it supports textures of any dimensions.\<close>

definition env_no_glsl :: env where
  "env_no_glsl = env_ok\<lparr>features := (\<lambda>f. f \<noteq> EVDF_ARB_GLSL)\<rparr>"

text \<open>The driver with every feature, whose render-target allocation fails.\<close>

definition env_no_target :: env where
  "env_no_target = env_ok\<lparr>render_target_result := None\<rparr>"

text \<open>Two players on the full driver.\<close>

definition env_two_players :: env where
  "env_two_players = env_ok\<lparr>getNumPlayers := 2\<rparr>"

text \<open>A default material: solid, untextured, lit, writing depth.\<close>

definition material0 :: SMaterial where
  "material0 = \<lparr>MaterialType = 0, Texture0 = None, Wireframe = False, Lighting = True,
     ZWriteEnable = True\<rparr>"

text \<open>Storage before the constructor runs: arbitrary.\<close>

definition storage0 :: PostProcessing where
  "storage0 = \<lparr>m_supported = False, m_used_pp_this_frame = True, m_boost_amount = NaN,
     m_render_target = Some 7,
     m_material = \<lparr>MaterialType = 3, Texture0 = Some 7, Wireframe = True, Lighting = False,
       ZWriteEnable = False\<rparr>\<rparr>"

text \<open>The world right after the constructor: nothing called, nothing logged, feature enabled.\<close>

definition world0 :: world where
  "world0 = \<lparr>pp = PostProcessing_ctor material0 storage0, m_postprocess_enabled = True,
     driver_calls = [], warnings = [], shader_calls = []\<rparr>"

text \<open>The world after a successful \<^verbatim>\<open>init\<close> and a boost.\<close>

definition world_boosted :: world where
  "world_boosted = giveBoost (init env_ok world0)"

section \<open>Facts used throughout\<close>

lemmas world_defs = driver_def warn_def queryFeature_def query_capabilities_def
  init_supported_def init_def

lemmas concrete_defs = env_ok_def env_no_glsl_def env_no_target_def env_two_players_def
  material0_def storage0_def world0_def world_boosted_def PostProcessing_ctor_def giveBoost_def

lemma shader_files_append: "shader_files (xs @ ys) = shader_files xs @ shader_files ys"
  by (induction xs rule: shader_files.induct) simp_all

lemma allocations_append: "allocations (xs @ ys) = allocations xs @ allocations ys"
  by (induction xs rule: allocations.induct) simp_all

lemma fgt_not_fle: "fgt a b \<Longrightarrow> \<not> fle a b"
  by (simp add: fgt_def fle_def)

lemma init_env_ok_world0:
  "m_supported (pp (init env_ok world0))" "m_postprocess_enabled (init env_ok world0)"
  "m_boost_amount (pp (init env_ok world0)) = Fin 0"
  "m_render_target (pp (init env_ok world0)) = Some 1"
  by (simp_all add: concrete_defs world_defs Let_def)

lemma world_boosted_fields:
  "m_supported (pp world_boosted)" "m_postprocess_enabled world_boosted"
  "m_boost_amount (pp world_boosted) = Fin (5 / 2)"
  "m_render_target (pp world_boosted) = Some 1"
  by (simp_all add: world_boosted_def giveBoost_def init_env_ok_world0)

lemma init_env_no_target_world0:
  "m_supported (pp (init env_no_target world0))"
  "\<not> m_postprocess_enabled (init env_no_target world0)"
  by (simp_all add: concrete_defs world_defs Let_def)

section \<open>The guard of the per-frame hooks\<close>

text \<open>
  Claim C1. In every state in which \<^verbatim>\<open>m_supported\<close> is false, or the configuration flag
  is false, or more than one player is active, \<^verbatim>\<open>beginCapture\<close>, \<^verbatim>\<open>endCapture\<close> and
  \<^verbatim>\<open>render\<close> each return with the world as it was: no call reaches the video driver and
  no member of the object changes.
\<close>

theorem skipped_hooks_change_nothing:
  "\<not> m_supported (pp w) \<or> \<not> m_postprocess_enabled w \<or> 1 < getNumPlayers e \<Longrightarrow>
   beginCapture e w = w \<and> endCapture e w = w \<and> render e w = w"
  by (simp add: beginCapture_def endCapture_def render_def skipped_def)

text \<open>Witness for C1: a supported, enabled, boosted world, with two players.\<close>

theorem skipped_hooks_change_nothing_witness:
  "1 < getNumPlayers env_two_players \<and>
   beginCapture env_two_players world_boosted = world_boosted \<and>
   endCapture env_two_players world_boosted = world_boosted \<and>
   render env_two_players world_boosted = world_boosted"
  using skipped_hooks_change_nothing [of world_boosted env_two_players]
  by (simp add: env_two_players_def)

section \<open>Initialisation\<close>

text \<open>
  Claim C3. When the three capabilities are present and \<^verbatim>\<open>addRenderTargetTexture\<close>
  returns null, \<^verbatim>\<open>init\<close> logs the warning that the render target could not be created
  (after the texture-dimension warnings, if any) and sets the configuration flag
  \<^verbatim>\<open>m_postprocess_enabled\<close> to false.
\<close>

theorem init_allocation_failure_disables:
  "features e EVDF_ARB_GLSL \<Longrightarrow> features e EVDF_PIXEL_SHADER_2_0 \<Longrightarrow>
   features e EVDF_RENDER_TO_TARGET \<Longrightarrow> render_target_result e = None \<Longrightarrow>
   warnings (init e w) = warnings w
     @ (if features e EVDF_TEXTURE_NPOT then []
        else [(''PostProcessing'', ''Only power of two textures are supported.'')])
     @ (if features e EVDF_TEXTURE_NSQUARE then []
        else [(''PostProcessing'', ''Only square textures are supported.'')])
     @ [(''PostProcessing'',
         ''Couldn't create the render target for post-processing, disabling it.'')]
   \<and> \<not> m_postprocess_enabled (init e w)"
  by (simp add: world_defs Let_def)

text \<open>Witness for C3: the full driver whose allocation fails, on a fresh world.\<close>

theorem init_allocation_failure_disables_witness:
  "features env_no_target EVDF_ARB_GLSL \<and> features env_no_target EVDF_PIXEL_SHADER_2_0 \<and>
   features env_no_target EVDF_RENDER_TO_TARGET \<and> render_target_result env_no_target = None \<and>
   m_postprocess_enabled world0 \<and>
   warnings (init env_no_target world0) =
     [(''PostProcessing'',
       ''Couldn't create the render target for post-processing, disabling it.'')] \<and>
   \<not> m_postprocess_enabled (init env_no_target world0)"
  using init_allocation_failure_disables [of env_no_target world0]
  by (simp add: env_no_target_def env_ok_def world0_def)

text \<open>
  Claim C4, as stated, fails: on a driver without GLSL that supports textures of any
  dimensions, \<^verbatim>\<open>init\<close> leaves \<^verbatim>\<open>m_supported\<close> false and logs nothing.
\<close>

theorem init_capability_absent_logs_nothing:
  "\<not> features env_no_glsl EVDF_ARB_GLSL \<and>
   \<not> m_supported (pp (init env_no_glsl world0)) \<and>
   warnings (init env_no_glsl world0) = warnings world0"
  by (simp add: world_defs Let_def env_no_glsl_def env_ok_def world0_def)

text \<open>
  Claim C4, amended. When one of the three capabilities is absent, \<^verbatim>\<open>init\<close> leaves
  \<^verbatim>\<open>m_supported\<close> false, allocates no render target, loads no shader, and leaves the
  render target, the material and the configuration flag as they were. The only warnings it
  logs are the two about texture dimensions, which depend on \<^verbatim>\<open>EVDF_TEXTURE_NPOT\<close> and
  \<^verbatim>\<open>EVDF_TEXTURE_NSQUARE\<close> alone: none is logged for the absent capability.
\<close>

theorem init_capability_absent:
  "\<not> (features e EVDF_ARB_GLSL \<and> features e EVDF_PIXEL_SHADER_2_0 \<and>
      features e EVDF_RENDER_TO_TARGET) \<Longrightarrow>
   \<not> m_supported (pp (init e w)) \<and>
   allocations (driver_calls (init e w)) = allocations (driver_calls w) \<and>
   shader_files (driver_calls (init e w)) = shader_files (driver_calls w) \<and>
   m_render_target (pp (init e w)) = m_render_target (pp w) \<and>
   m_material (pp (init e w)) = m_material (pp w) \<and>
   m_postprocess_enabled (init e w) = m_postprocess_enabled w \<and>
   warnings (init e w) = warnings w
     @ (if features e EVDF_TEXTURE_NPOT then []
        else [(''PostProcessing'', ''Only power of two textures are supported.'')])
     @ (if features e EVDF_TEXTURE_NSQUARE then []
        else [(''PostProcessing'', ''Only square textures are supported.'')])"
  by (cases "features e EVDF_ARB_GLSL"; cases "features e EVDF_PIXEL_SHADER_2_0";
      cases "features e EVDF_RENDER_TO_TARGET")
     (simp_all add: world_defs Let_def shader_files_append allocations_append)

text \<open>Witness for the amended C4: the driver without GLSL, on a fresh world.\<close>

theorem init_capability_absent_witness:
  "\<not> (features env_no_glsl EVDF_ARB_GLSL \<and> features env_no_glsl EVDF_PIXEL_SHADER_2_0 \<and>
      features env_no_glsl EVDF_RENDER_TO_TARGET) \<and>
   \<not> m_supported (pp (init env_no_glsl world0)) \<and>
   allocations (driver_calls (init env_no_glsl world0)) = [] \<and>
   shader_files (driver_calls (init env_no_glsl world0)) = [] \<and>
   m_postprocess_enabled (init env_no_glsl world0) \<and>
   warnings (init env_no_glsl world0) = []"
  using init_capability_absent [of env_no_glsl world0]
  by (simp add: env_no_glsl_def env_ok_def world0_def)

text \<open>
  Claim C7. \<^verbatim>\<open>init\<close> loads shader files exactly when the three capabilities are present,
  and then exactly two, in one call: the vertex shader at the shader directory followed by
  \<^verbatim>\<open>motion_blur.vert\<close> and the fragment shader at the shader directory followed by
  \<^verbatim>\<open>motion_blur.frag\<close>. Without the capabilities it loads none.
\<close>

theorem init_loads_two_shaders:
  "shader_files (driver_calls (init e w)) = shader_files (driver_calls w) @
     (if features e EVDF_ARB_GLSL \<and> features e EVDF_PIXEL_SHADER_2_0 \<and>
         features e EVDF_RENDER_TO_TARGET
      then [getShaderDir e @ ''motion_blur.vert'', getShaderDir e @ ''motion_blur.frag'']
      else [])
   \<and> (features e EVDF_ARB_GLSL \<and> features e EVDF_PIXEL_SHADER_2_0 \<and>
         features e EVDF_RENDER_TO_TARGET \<longrightarrow>
       driver_calls (init e w) = driver_calls w @
         [QueryFeature EVDF_ARB_GLSL, QueryFeature EVDF_PIXEL_SHADER_2_0,
          QueryFeature EVDF_RENDER_TO_TARGET, QueryFeature EVDF_TEXTURE_NSQUARE,
          QueryFeature EVDF_TEXTURE_NPOT, GetScreenSize,
          AddRenderTargetTexture
            (getOptimalSize e (screen_size e) (\<not> features e EVDF_TEXTURE_NPOT)
               (\<not> features e EVDF_TEXTURE_NSQUARE)) ''postprocess'',
          GetGPUProgrammingServices,
          AddHighLevelShaderMaterialFromFiles
            (getShaderDir e @ ''motion_blur.vert'') ''main'' EVST_VS_2_0
            (getShaderDir e @ ''motion_blur.frag'') ''main'' EPST_PS_2_0 EMT_SOLID])"
  by (cases "features e EVDF_ARB_GLSL"; cases "features e EVDF_PIXEL_SHADER_2_0";
      cases "features e EVDF_RENDER_TO_TARGET"; cases "features e EVDF_TEXTURE_NPOT";
      cases "features e EVDF_TEXTURE_NSQUARE"; cases "render_target_result e")
     (simp_all add: world_defs Let_def shader_files_append)

text \<open>Witness for C7: the full driver loads the two files, the driver without GLSL none.\<close>

theorem init_loads_two_shaders_witness:
  "features env_ok EVDF_ARB_GLSL \<and> features env_ok EVDF_PIXEL_SHADER_2_0 \<and>
   features env_ok EVDF_RENDER_TO_TARGET \<and>
   shader_files (driver_calls (init env_ok world0)) =
     [''data/shaders/motion_blur.vert'', ''data/shaders/motion_blur.frag''] \<and>
   shader_files (driver_calls (init env_no_glsl world0)) = []"
  using init_loads_two_shaders [of env_ok world0] init_loads_two_shaders [of env_no_glsl world0]
  by (simp add: env_ok_def env_no_glsl_def world0_def)

section \<open>Capture\<close>

text \<open>
  Claim C5. With the feature supported and enabled and at most one player:
  when \<^verbatim>\<open>m_boost_amount <= 0\<close>, \<^verbatim>\<open>beginCapture\<close> only sets
  \<^verbatim>\<open>m_used_pp_this_frame\<close> to false, and a following \<^verbatim>\<open>endCapture\<close> calls nothing;
  when \<^verbatim>\<open>m_boost_amount > 0\<close>, \<^verbatim>\<open>beginCapture\<close> sets the flag to true and sets the
  driver's render target to \<^verbatim>\<open>m_render_target\<close>, and a following \<^verbatim>\<open>endCapture\<close>
  sets it back to the frame buffer. In any such state \<^verbatim>\<open>endCapture\<close> restores the frame
  buffer exactly when \<^verbatim>\<open>m_used_pp_this_frame\<close> is true.
\<close>

theorem capture_follows_boost:
  "m_supported (pp w) \<Longrightarrow> m_postprocess_enabled w \<Longrightarrow> getNumPlayers e \<le> 1 \<Longrightarrow>
   (fle (m_boost_amount (pp w)) (Fin 0) \<longrightarrow>
      beginCapture e w = w\<lparr>pp := (pp w)\<lparr>m_used_pp_this_frame := False\<rparr>\<rparr> \<and>
      driver_calls (beginCapture e w) = driver_calls w \<and>
      driver_calls (endCapture e (beginCapture e w)) = driver_calls w) \<and>
   (fgt (m_boost_amount (pp w)) (Fin 0) \<longrightarrow>
      beginCapture e w = w\<lparr>pp := (pp w)\<lparr>m_used_pp_this_frame := True\<rparr>,
        driver_calls := driver_calls w @
          [SetRenderTargetTexture (m_render_target (pp w)) True True]\<rparr> \<and>
      driver_calls (endCapture e (beginCapture e w)) = driver_calls w @
          [SetRenderTargetTexture (m_render_target (pp w)) True True,
           SetRenderTargetEnum ERT_FRAME_BUFFER True True 0]) \<and>
   endCapture e w = (if m_used_pp_this_frame (pp w)
      then w\<lparr>driver_calls := driver_calls w @
                [SetRenderTargetEnum ERT_FRAME_BUFFER True True 0]\<rparr>
      else w)"
  by (simp add: beginCapture_def endCapture_def skipped_def driver_def fgt_not_fle)

text \<open>
  Witness for C5: the boosted world is captured and restored; the world right after
  \<^verbatim>\<open>init\<close>, whose boost is zero, is not.
\<close>

theorem capture_follows_boost_witness:
  "m_supported (pp world_boosted) \<and> m_postprocess_enabled world_boosted \<and>
   getNumPlayers env_ok \<le> 1 \<and> fgt (m_boost_amount (pp world_boosted)) (Fin 0) \<and>
   driver_calls (endCapture env_ok (beginCapture env_ok world_boosted)) =
     driver_calls world_boosted @
       [SetRenderTargetTexture (Some 1) True True,
        SetRenderTargetEnum ERT_FRAME_BUFFER True True 0] \<and>
   m_supported (pp (init env_ok world0)) \<and> m_postprocess_enabled (init env_ok world0) \<and>
   fle (m_boost_amount (pp (init env_ok world0))) (Fin 0) \<and>
   driver_calls (endCapture env_ok (beginCapture env_ok (init env_ok world0))) =
     driver_calls (init env_ok world0)"
proof -
  have np: "getNumPlayers env_ok \<le> 1"
    by (simp add: env_ok_def)
  have hi: "fgt (m_boost_amount (pp world_boosted)) (Fin 0)"
    by (simp add: world_boosted_fields fgt_def)
  have lo: "fle (m_boost_amount (pp (init env_ok world0))) (Fin 0)"
    by (simp add: init_env_ok_world0 fle_def)
  have 1: "driver_calls (endCapture env_ok (beginCapture env_ok world_boosted)) =
    driver_calls world_boosted @
      [SetRenderTargetTexture (m_render_target (pp world_boosted)) True True,
       SetRenderTargetEnum ERT_FRAME_BUFFER True True 0]"
    using capture_follows_boost [OF world_boosted_fields(1,2) np] hi by blast
  have 2: "driver_calls (endCapture env_ok (beginCapture env_ok (init env_ok world0))) =
    driver_calls (init env_ok world0)"
    using capture_follows_boost [OF init_env_ok_world0(1,2) np] lo by blast
  show ?thesis
    using 1 2 hi lo np by (simp add: world_boosted_fields init_env_ok_world0)
qed

section \<open>The shader callback\<close>

text \<open>
  Claim C6. In every state \<^verbatim>\<open>OnSetConstants\<close> makes two calls on the services: it sets
  the pixel-shader constant \<^verbatim>\<open>boost_amount\<close> to the current \<^verbatim>\<open>m_boost_amount\<close>
  (one float) and the constant \<^verbatim>\<open>color_buffer\<close> to texture unit 0 (one integer).
  It changes nothing else.
\<close>

theorem OnSetConstants_passes_boost:
  "OnSetConstants user_data w = w\<lparr>shader_calls := shader_calls w @
     [SetPixelShaderConstantF ''boost_amount'' (m_boost_amount (pp w)) 1,
      SetPixelShaderConstantI ''color_buffer'' 0 1]\<rparr>
   \<and> pp (OnSetConstants user_data w) = pp w
   \<and> driver_calls (OnSetConstants user_data w) = driver_calls w"
  by (simp add: OnSetConstants_def)

section \<open>No way back on\<close>

lemma exec_keeps_switches:
  "m_supported (pp (exec e c w)) = m_supported (pp w)"
  "m_postprocess_enabled (exec e c w) = m_postprocess_enabled w"
  by (cases c; simp add: shut_def beginCapture_def endCapture_def update_def render_def
        giveBoost_def OnSetConstants_def driver_def Let_def)+

lemma run_keeps_switches:
  "m_supported (pp (run cs w)) = m_supported (pp w) \<and>
   m_postprocess_enabled (run cs w) = m_postprocess_enabled w"
proof (induction cs arbitrary: w)
  case Nil
  show ?case by simp
next
  case (Cons x cs)
  obtain e c where x: "x = (e, c)" by (cases x)
  from Cons [of "exec e c w"] show ?case
    by (simp add: x exec_keeps_switches)
qed

lemma exec_off_no_driver_call:
  "\<not> m_supported (pp w) \<or> \<not> m_postprocess_enabled w \<Longrightarrow>
   driver_calls (exec e c w) = driver_calls w"
  by (cases c; auto simp add: shut_def beginCapture_def endCapture_def update_def render_def
        giveBoost_def OnSetConstants_def skipped_def Let_def)

lemma run_off_no_driver_call:
  "\<not> m_supported (pp w) \<or> \<not> m_postprocess_enabled w \<Longrightarrow>
   driver_calls (run cs w) = driver_calls w"
proof (induction cs arbitrary: w)
  case Nil
  show ?case by simp
next
  case (Cons x cs)
  obtain e c where x: "x = (e, c)" by (cases x)
  have "\<not> m_supported (pp (exec e c w)) \<or> \<not> m_postprocess_enabled (exec e c w)"
    using Cons.prems by (simp add: exec_keeps_switches)
  then have "driver_calls (run cs (exec e c w)) = driver_calls (exec e c w)"
    by (rule Cons.IH)
  then show ?case
    using Cons.prems by (simp add: x exec_off_no_driver_call)
qed

lemma init_never_enables: "m_postprocess_enabled (init e w) \<Longrightarrow> m_postprocess_enabled w"
  by (cases "features e EVDF_ARB_GLSL"; cases "features e EVDF_PIXEL_SHADER_2_0";
      cases "features e EVDF_RENDER_TO_TARGET"; cases "features e EVDF_TEXTURE_NPOT";
      cases "features e EVDF_TEXTURE_NSQUARE"; cases "render_target_result e")
     (simp_all add: world_defs Let_def)

text \<open>
  Claim C8. No call other than \<^verbatim>\<open>init\<close> writes \<^verbatim>\<open>m_supported\<close> or the configuration
  flag, and \<^verbatim>\<open>init\<close> never turns a false configuration flag to true. So every sequence of
  calls to \<^verbatim>\<open>shut\<close>, \<^verbatim>\<open>beginCapture\<close>, \<^verbatim>\<open>endCapture\<close>, \<^verbatim>\<open>update\<close>,
  \<^verbatim>\<open>render\<close>, \<^verbatim>\<open>giveBoost\<close> and \<^verbatim>\<open>OnSetConstants\<close> leaves both as they were, and
  when one of them is false the feature stays off: the sequence makes no driver call at all.
\<close>

theorem disabling_is_permanent:
  "m_supported (pp (exec e c w)) = m_supported (pp w) \<and>
   m_postprocess_enabled (exec e c w) = m_postprocess_enabled w \<and>
   (\<not> m_postprocess_enabled w \<longrightarrow> \<not> m_postprocess_enabled (init e w)) \<and>
   m_supported (pp (run cs w)) = m_supported (pp w) \<and>
   m_postprocess_enabled (run cs w) = m_postprocess_enabled w \<and>
   (\<not> m_supported (pp w) \<or> \<not> m_postprocess_enabled w \<longrightarrow>
      (\<not> m_supported (pp (run cs w)) \<or> \<not> m_postprocess_enabled (run cs w)) \<and>
      driver_calls (run cs w) = driver_calls w)"
  using run_keeps_switches [of cs w] run_off_no_driver_call [of w cs]
    init_never_enables [of e w]
  by (auto simp add: exec_keeps_switches)

text \<open>
  Witness for C8: after the allocation failure has cleared the configuration flag, a second
  \<^verbatim>\<open>init\<close> and a frame's worth of calls leave it cleared, and the frame calls nothing.
\<close>

theorem disabling_is_permanent_witness:
  "\<not> m_postprocess_enabled (init env_no_target world0) \<and>
   \<not> m_postprocess_enabled (init env_ok (init env_no_target world0)) \<and>
   \<not> m_postprocess_enabled
      (run [(env_ok, GiveBoost), (env_ok, BeginCapture), (env_ok, Update (Fin (1 / 64))),
            (env_ok, EndCapture), (env_ok, Render), (env_ok, SetConstants 0),
            (env_two_players, Shut)] (init env_no_target world0)) \<and>
   driver_calls
      (run [(env_ok, GiveBoost), (env_ok, BeginCapture), (env_ok, Update (Fin (1 / 64))),
            (env_ok, EndCapture), (env_ok, Render), (env_ok, SetConstants 0),
            (env_two_players, Shut)] (init env_no_target world0)) =
   driver_calls (init env_no_target world0)"
  using disabling_is_permanent [of env_ok _ "init env_no_target world0"
      "[(env_ok, GiveBoost), (env_ok, BeginCapture), (env_ok, Update (Fin (1 / 64))),
            (env_ok, EndCapture), (env_ok, Render), (env_ok, SetConstants 0),
            (env_two_players, Shut)]"]
    init_env_no_target_world0(2)
  by blast

section \<open>Rounding to single precision\<close>

subsection \<open>Exponents\<close>

lemma real_le_pow2: "m \<le> 2 ^ k \<Longrightarrow> real_of_int m \<le> 2 ^ k"
  using of_int_le_iff [of m "2 ^ k", where ?'a = real] by simp

lemma pow2_le_real: "2 ^ k \<le> m \<Longrightarrow> 2 ^ k \<le> real_of_int m"
  using of_int_le_iff [of "2 ^ k" m, where ?'a = real] by simp

lemma bitlen_pos: "0 < n \<Longrightarrow> 1 \<le> bitlen n"
  using bitlen_eq_zero_iff [of n] bitlen_nonneg [of n] by linarith

lemma ilog2_bounds:
  assumes "0 < x"
  shows "2 powi (ilog2 x) \<le> x" and "x < 2 powi (ilog2 x + 1)"
proof -
  have "2 powi (ilog2 x) \<le> x \<and> x < 2 powi (ilog2 x + 1)"
  proof (cases "1 \<le> x")
    case True
    define n where "n = \<lfloor>x\<rfloor>"
    have n: "0 < n" using True by (simp add: n_def)
    have il: "ilog2 x = bitlen n - 1" using True by (simp add: ilog2_def n_def)
    from bitlen_bounds [OF n] have lo: "2 ^ nat (bitlen n - 1) \<le> n" and hi: "n < 2 ^ nat (bitlen n)"
      by simp_all
    have b1: "1 \<le> bitlen n" using n by (rule bitlen_pos)
    have fl: "real_of_int n \<le> x" "x < real_of_int n + 1" unfolding n_def by linarith+
    have "2 ^ nat (bitlen n - 1) \<le> real_of_int n" using lo by (rule pow2_le_real)
    with fl have "2 ^ nat (bitlen n - 1) \<le> x" by linarith
    moreover have "(2::real) powi (bitlen n - 1) = 2 ^ nat (bitlen n - 1)"
      using b1 by (simp add: power_int_def)
    ultimately have A: "2 powi (ilog2 x) \<le> x" by (simp add: il)
    have "n + 1 \<le> 2 ^ nat (bitlen n)" using hi by simp
    then have "real_of_int (n + 1) \<le> 2 ^ nat (bitlen n)" by (rule real_le_pow2)
    with fl have "x < 2 ^ nat (bitlen n)" by simp
    moreover have "(2::real) powi (bitlen n) = 2 ^ nat (bitlen n)"
      using b1 by (simp add: power_int_def)
    ultimately have B: "x < 2 powi (ilog2 x + 1)" by (simp add: il)
    from A B show ?thesis ..
  next
    case False
    define m where "m = \<lceil>1 / x\<rceil>"
    define k where "k = bitlen (m - 1)"
    have y: "1 < 1 / x" using False assms by simp
    have m: "0 < m - 1" using y by (simp add: m_def less_ceiling_iff)
    have il: "ilog2 x = - k" using False by (simp add: ilog2_def m_def k_def)
    from bitlen_bounds [OF m] have lo: "2 ^ nat (k - 1) \<le> m - 1" and hi: "m - 1 < 2 ^ nat k"
      by (simp_all add: k_def)
    have k1: "1 \<le> k" unfolding k_def using m by (rule bitlen_pos)
    have cl: "1 / x \<le> real_of_int m" "real_of_int m - 1 < 1 / x" unfolding m_def by linarith+
    have "m \<le> 2 ^ nat k" using hi by simp
    then have "real_of_int m \<le> 2 ^ nat k" by (rule real_le_pow2)
    with cl have "1 / x \<le> 2 ^ nat k" by linarith
    then have "1 \<le> 2 ^ nat k * x" using assms by (simp add: field_simps)
    then have "1 / 2 ^ nat k \<le> x" by (simp add: field_simps)
    moreover have "(2::real) powi (- k) = 1 / 2 ^ nat k"
      using k1 by (simp add: power_int_def field_simps)
    ultimately have A: "2 powi (ilog2 x) \<le> x" by (simp add: il)
    have "2 ^ nat (k - 1) \<le> real_of_int (m - 1)" using lo by (rule pow2_le_real)
    with cl have "2 ^ nat (k - 1) < 1 / x" by simp
    then have "2 ^ nat (k - 1) * x < 1" using assms by (simp add: field_simps)
    then have "x < 1 / 2 ^ nat (k - 1)" by (simp add: field_simps)
    moreover have "(2::real) powi (- k + 1) = 1 / 2 ^ nat (k - 1)"
    proof (cases "k = 1")
      case True then show ?thesis by simp
    next
      case F: False
      with k1 have "- k + 1 < 0" by simp
      then show ?thesis using k1 by (simp add: power_int_def field_simps nat_diff_distrib)
    qed
    ultimately have B: "x < 2 powi (ilog2 x + 1)" by (simp add: il)
    from A B show ?thesis ..
  qed
  then show "2 powi (ilog2 x) \<le> x" and "x < 2 powi (ilog2 x + 1)" by simp_all
qed

lemma ilog2_less: "0 < x \<Longrightarrow> x < 2 powi e \<Longrightarrow> ilog2 x < e"
proof (rule ccontr)
  assume x: "0 < x" "x < 2 powi e" and "\<not> ilog2 x < e"
  then have "e \<le> ilog2 x" by simp
  then have "(2::real) powi e \<le> 2 powi (ilog2 x)" by (rule power_int_increasing) simp
  with ilog2_bounds(1) [OF x(1)] x(2) show False by linarith
qed

lemma ilog2_ge: "0 < x \<Longrightarrow> 2 powi e \<le> x \<Longrightarrow> e \<le> ilog2 x"
proof (rule ccontr)
  assume x: "0 < x" "2 powi e \<le> x" and "\<not> e \<le> ilog2 x"
  then have "ilog2 x + 1 \<le> e" by simp
  then have "(2::real) powi (ilog2 x + 1) \<le> 2 powi e" by (rule power_int_increasing) simp
  with ilog2_bounds(2) [OF x(1)] x(2) show False by linarith
qed

lemma expo_ge: "- 126 \<le> expo x"
  by (simp add: expo_def)

lemma expo_upper: "\<bar>x\<bar> < 2 powi (expo x + 1)"
proof (cases "x = 0")
  case True
  then show ?thesis by simp
next
  case False
  then have pos: "0 < \<bar>x\<bar>" by simp
  have "ilog2 \<bar>x\<bar> + 1 \<le> expo x + 1" using False by (simp add: expo_def)
  then have "(2::real) powi (ilog2 \<bar>x\<bar> + 1) \<le> 2 powi (expo x + 1)"
    by (rule power_int_increasing) simp
  with ilog2_bounds(2) [OF pos] show ?thesis by linarith
qed

lemma expo_lower: "expo x \<noteq> - 126 \<Longrightarrow> 2 powi (expo x) \<le> \<bar>x\<bar>"
proof -
  assume a: "expo x \<noteq> - 126"
  then have nz: "x \<noteq> 0" by (auto simp add: expo_def)
  with a have "expo x = ilog2 \<bar>x\<bar>" by (simp add: expo_def max_def split: if_splits)
  with ilog2_bounds(1) [of "\<bar>x\<bar>"] nz show ?thesis by simp
qed

lemma expo_le: "- 126 \<le> e \<Longrightarrow> \<bar>x\<bar> < 2 powi (e + 1) \<Longrightarrow> expo x \<le> e"
proof (cases "x = 0")
  case True
  assume "- 126 \<le> e"
  with True show ?thesis by (simp add: expo_def)
next
  case False
  assume e: "- 126 \<le> e" "\<bar>x\<bar> < 2 powi (e + 1)"
  from False have "0 < \<bar>x\<bar>" by simp
  from ilog2_less [OF this e(2)] e(1) False show ?thesis by (simp add: expo_def)
qed

lemma expo_ge_exp: "2 powi e \<le> \<bar>x\<bar> \<Longrightarrow> e \<le> expo x"
proof -
  assume e: "2 powi e \<le> \<bar>x\<bar>"
  have "(0::real) < 2 powi e" by simp
  with e have pos: "0 < \<bar>x\<bar>" by linarith
  then have "x \<noteq> 0" by auto
  with ilog2_ge [OF pos e] show ?thesis by (simp add: expo_def)
qed

lemma expo_mono: "\<bar>x\<bar> \<le> \<bar>y\<bar> \<Longrightarrow> expo x \<le> expo y"
proof -
  assume "\<bar>x\<bar> \<le> \<bar>y\<bar>"
  with expo_upper [of y] have "\<bar>x\<bar> < 2 powi (expo y + 1)" by linarith
  with expo_ge [of y] show ?thesis by (rule expo_le)
qed

lemma ulp_pos: "0 < ulp x"
  by (simp add: ulp_def)

lemma rne_of_int: "rne (of_int k) = k"
  by (simp add: rne_def)

lemma rne_ge: "of_int k \<le> y \<Longrightarrow> k \<le> rne y"
proof -
  assume "of_int k \<le> y"
  then have "k \<le> \<lfloor>y\<rfloor>" by (simp add: le_floor_iff)
  then show ?thesis by (simp add: rne_def Let_def)
qed

lemma rne_le: "y \<le> of_int k \<Longrightarrow> rne y \<le> k"
proof (cases "y = of_int k")
  case True
  then show ?thesis by (simp add: rne_of_int)
next
  case False
  assume "y \<le> of_int k"
  with False have "y < of_int k" by simp
  then have "\<lfloor>y\<rfloor> < k" by (simp add: floor_less_iff)
  then show ?thesis by (simp add: rne_def Let_def)
qed

subsection \<open>The grid\<close>

lemma pow2_ratio: "k \<le> e \<Longrightarrow> (2::real) powi (e - 23) / 2 powi (k - 23) = of_int (2 ^ nat (e - k))"
proof -
  assume ke: "k \<le> e"
  have "(2::real) powi (e - 23) / 2 powi (k - 23) = 2 powi ((e - 23) - (k - 23))"
    by (simp add: power_int_diff)
  also have "\<dots> = 2 powi (e - k)" by simp
  also have "\<dots> = 2 ^ nat (e - k)" using ke by (simp add: power_int_nonneg_exp)
  finally show ?thesis by simp
qed

lemma pow2_24: "(2::real) ^ 24 * 2 powi (e - 23) = 2 powi (e + 1)"
proof -
  have "e + 1 = 24 + (e - 23)" by simp
  then have "(2::real) powi (e + 1) = 2 powi (24 + (e - 23))" by (rule arg_cong)
  also have "\<dots> = 2 powi 24 * 2 powi (e - 23)" by (rule power_int_add) simp
  finally show ?thesis by simp
qed

lemma pow2_23: "(2::real) ^ 23 * 2 powi (e - 23) = 2 powi e"
proof -
  have "(2::real) powi e = 2 powi (23 + (e - 23))" by simp
  also have "\<dots> = 2 powi 23 * 2 powi (e - 23)" by (rule power_int_add) simp
  finally show ?thesis by simp
qed

lemma on_grid_int: "x = of_int k * ulp x \<Longrightarrow> of_int \<lfloor>x / ulp x\<rfloor> = x / ulp x"
proof -
  assume "x = of_int k * ulp x"
  then have "x / ulp x = of_int k" using ulp_pos [of x] by (simp add: field_simps)
  then show ?thesis by simp
qed

lemma is_f32_grid:
  assumes e: "- 126 \<le> e" and n: "\<bar>n\<bar> \<le> 2 ^ 24"
    and r: "\<bar>of_int n * 2 powi (e - 23)\<bar> < (2::real) ^ 128"
  shows "is_f32 (of_int n * 2 powi (e - 23))"
proof -
  define r where "r = real_of_int n * 2 powi (e - 23)"
  have absr: "\<bar>r\<bar> = real_of_int \<bar>n\<bar> * 2 powi (e - 23)"
    by (simp add: r_def abs_mult)
  have "\<exists>k. r = of_int k * ulp r"
  proof (cases "\<bar>n\<bar> = 2 ^ 24")
    case True
    then have "\<bar>r\<bar> = 2 ^ 24 * 2 powi (e - 23)" by (simp add: absr)
    then have ar: "\<bar>r\<bar> = 2 powi (e + 1)" by (simp only: pow2_24)
    have "(2::real) powi (e + 1) < 2 powi (e + 1 + 1)"
      by (rule power_int_strict_increasing) simp_all
    with ar have "\<bar>r\<bar> < 2 powi (e + 1 + 1)" by simp
    with e have "expo r \<le> e + 1" by (intro expo_le) simp_all
    moreover from ar have "e + 1 \<le> expo r" by (intro expo_ge_exp) simp
    ultimately have er: "expo r = e + 1" by simp
    have "2 powi (e - 22) = (2::real) powi (1 + (e - 23))" by simp
    also have "\<dots> = 2 powi 1 * 2 powi (e - 23)" by (rule power_int_add) simp
    finally have u: "ulp r = 2 * 2 powi (e - 23)" by (simp add: ulp_def er)
    from True have "2 dvd \<bar>n\<bar>" by simp
    then have "2 dvd n" by simp
    then obtain m where "n = 2 * m" ..
    then have "r = of_int m * ulp r" unfolding u by (simp add: r_def)
    then show ?thesis ..
  next
    case False
    with n have "\<bar>n\<bar> < 2 ^ 24" by simp
    then have "real_of_int \<bar>n\<bar> < 2 ^ 24" by simp
    then have "real_of_int \<bar>n\<bar> * 2 powi (e - 23) < 2 ^ 24 * 2 powi (e - 23)"
      by (intro mult_strict_right_mono) simp_all
    then have "\<bar>r\<bar> < 2 powi (e + 1)" by (simp only: pow2_24 absr)
    with e have er: "expo r \<le> e" by (rule expo_le)
    have "r = of_int n * (2 powi (e - 23) / 2 powi (expo r - 23)) * ulp r"
      by (simp add: r_def ulp_def)
    also have "\<dots> = of_int (n * 2 ^ nat (e - expo r)) * ulp r"
      by (simp only: pow2_ratio [OF er] of_int_mult)
    finally show ?thesis ..
  qed
  then obtain k where "r = of_int k * ulp r" ..
  then have "of_int \<lfloor>r / ulp r\<rfloor> = r / ulp r" by (rule on_grid_int)
  with r show ?thesis by (simp add: is_f32_def r_def)
qed

lemma is_f32_0: "is_f32 0"
  by (simp add: is_f32_def)

text \<open>The significand that rounding picks has at most 24 bits, and one more value: \<open>2 ^ 24\<close>.\<close>

lemma rne_significand: "\<bar>rne (x / ulp x)\<bar> \<le> 2 ^ 24"
proof -
  have "\<bar>x\<bar> < 2 ^ 24 * 2 powi (expo x - 23)"
    using expo_upper [of x] by (simp only: pow2_24)
  then have "x < 2 ^ 24 * ulp x" "- (2 ^ 24 * ulp x) < x"
    by (simp_all add: ulp_def abs_less_iff)
  then have "x / ulp x < 2 ^ 24" "- (2 ^ 24) < x / ulp x"
    using ulp_pos [of x] by (simp_all add: pos_divide_less_eq pos_less_divide_eq)
  then have a: "x / ulp x \<le> of_int (2 ^ 24)" "of_int (- (2 ^ 24)) \<le> x / ulp x"
    by simp_all
  from rne_le [OF a(1)] rne_ge [OF a(2)] show ?thesis by simp
qed


lemma round_f32_finite: "round_f32 x = Fin r \<Longrightarrow> is_f32 r"
proof -
  assume a: "round_f32 x = Fin r"
  define n where "n = rne (x / ulp x)"
  from a have r: "r = of_int n * 2 powi (expo x - 23)" and lt: "r < 2 ^ 128" "- (2 ^ 128) < r"
    by (simp_all add: round_f32_def Let_def n_def ulp_def split: if_splits)
  from lt have "\<bar>r\<bar> < 2 ^ 128" by simp
  with is_f32_grid [OF expo_ge [of x] rne_significand [of x], folded n_def] r
  show ?thesis by simp
qed

lemma round_f32_exact: "is_f32 x \<Longrightarrow> round_f32 x = Fin x"
proof -
  assume a: "is_f32 x"
  then have fl: "of_int \<lfloor>x / ulp x\<rfloor> = x / ulp x" unfolding is_f32_def by (rule conjunct2)
  then have rn: "rne (x / ulp x) = \<lfloor>x / ulp x\<rfloor>" by (metis rne_of_int)
  have "of_int (rne (x / ulp x)) * ulp x = of_int \<lfloor>x / ulp x\<rfloor> * ulp x"
    by (simp only: rn)
  also have "\<dots> = x / ulp x * ulp x" by (simp only: fl)
  also have "\<dots> = x" using ulp_pos [of x] by simp
  finally have "of_int (rne (x / ulp x)) * ulp x = x" .
  moreover from a have "\<bar>x\<bar> < 2 ^ 128" unfolding is_f32_def by (rule conjunct1)
  then have "x < 2 ^ 128" "- (2 ^ 128) < x" by (simp_all add: abs_less_iff)
  ultimately show ?thesis by (simp add: round_f32_def Let_def)
qed

subsection \<open>Rounding against a grid point\<close>

lemma is_f32_on_grid:
  assumes "is_f32 b"
  obtains k where "b = of_int k * ulp b"
proof -
  from assms have fl: "of_int \<lfloor>b / ulp b\<rfloor> = b / ulp b"
    unfolding is_f32_def by (rule conjunct2)
  have "b = b / ulp b * ulp b" using ulp_pos [of b] by simp
  also have "\<dots> = of_int \<lfloor>b / ulp b\<rfloor> * ulp b" by (simp only: fl)
  finally show ?thesis by (rule that)
qed

text \<open>A grid point above the argument bounds the rounded significand from above.\<close>

lemma round_f32_upper:
  assumes b: "is_f32 b" "0 \<le> b" and y: "y \<le> b"
  shows "fle (round_f32 y) (Fin b)"
proof -
  define n where "n = rne (y / ulp y)"
  define r where "r = real_of_int n * ulp y"
  have u: "0 < ulp y" by (rule ulp_pos)
  have rb: "r \<le> b"
  proof (cases "y \<le> 0")
    case True
    then have "y / ulp y \<le> of_int 0" using u by (simp add: divide_le_0_iff)
    then have "n \<le> 0" unfolding n_def by (rule rne_le)
    then have "r \<le> 0" using u by (simp add: r_def mult_le_0_iff)
    with b(2) show ?thesis by simp
  next
    case False
    with y b(2) have "\<bar>y\<bar> \<le> \<bar>b\<bar>" by simp
    then have e: "expo y \<le> expo b" by (rule expo_mono)
    from b(1) obtain j where "b = of_int j * ulp b" by (rule is_f32_on_grid)
    also have "\<dots> = of_int j * (ulp b / ulp y) * ulp y" using u by simp
    also have "ulp b / ulp y = of_int (2 ^ nat (expo b - expo y))"
      unfolding ulp_def using e by (rule pow2_ratio)
    finally have bk: "b = of_int (j * 2 ^ nat (expo b - expo y)) * ulp y"
      by (simp only: of_int_mult)
    define k where "k = j * 2 ^ nat (expo b - expo y)"
    from bk have bk': "b = of_int k * ulp y" by (simp only: k_def)
    from y have "y / ulp y \<le> b / ulp y" using u by (simp add: divide_right_mono)
    also have "b / ulp y = of_int k" using bk' u by (simp add: field_simps)
    finally have "n \<le> k" unfolding n_def by (rule rne_le)
    then have "real_of_int n \<le> real_of_int k" by simp
    then have "r \<le> of_int k * ulp y" unfolding r_def using u by (simp add: mult_right_mono)
    with bk' show ?thesis by simp
  qed
  from b(1) have "\<bar>b\<bar> < 2 ^ 128" unfolding is_f32_def by (rule conjunct1)
  with rb have "r < 2 ^ 128" by linarith
  with rb show ?thesis
    by (simp add: round_f32_def Let_def fle_def flip: n_def r_def)
qed

lemma round_f32_lower:
  assumes b: "is_f32 b" "0 \<le> b" and y: "b \<le> y"
  shows "fle (Fin b) (round_f32 y)"
proof -
  define n where "n = rne (y / ulp y)"
  define r where "r = real_of_int n * ulp y"
  have u: "0 < ulp y" by (rule ulp_pos)
  from b(2) y have y0: "0 \<le> y" by simp
  have "\<bar>b\<bar> \<le> \<bar>y\<bar>" using b(2) y by simp
  then have e: "expo b \<le> expo y" by (rule expo_mono)
  have br: "b \<le> r"
  proof (cases "expo b = expo y")
    case True
    then have ub: "ulp b = ulp y" by (simp add: ulp_def)
    from b(1) obtain k where "b = of_int k * ulp b" by (rule is_f32_on_grid)
    then have bk: "b = of_int k * ulp y" by (simp only: ub)
    then have "b / ulp y = of_int k" using u by (simp add: field_simps)
    moreover from y have "b / ulp y \<le> y / ulp y" using u by (simp add: divide_right_mono)
    ultimately have "of_int k \<le> y / ulp y" by simp
    then have "k \<le> n" unfolding n_def by (rule rne_ge)
    then have "real_of_int k \<le> real_of_int n" by simp
    then have "of_int k * ulp y \<le> r" unfolding r_def using u by (simp add: mult_right_mono)
    with bk show ?thesis by simp
  next
    case False
    with e have lt: "expo b + 1 \<le> expo y" by simp
    with expo_ge [of b] have "expo y \<noteq> - 126" by simp
    then have "2 powi (expo y) \<le> \<bar>y\<bar>" by (rule expo_lower)
    with y0 have lo: "2 powi (expo y) \<le> y" by simp
    have "2 ^ 23 * ulp y = 2 powi (expo y)" unfolding ulp_def by (rule pow2_23)
    with lo have "2 ^ 23 * ulp y \<le> y" by simp
    then have "of_int (2 ^ 23) \<le> y / ulp y" using u by (simp add: pos_le_divide_eq)
    then have "2 ^ 23 \<le> n" unfolding n_def by (rule rne_ge)
    then have "2 ^ 23 \<le> real_of_int n" by (rule pow2_le_real)
    then have "2 ^ 23 * ulp y \<le> r" unfolding r_def using u by (simp add: mult_right_mono)
    then have "2 powi (expo y) \<le> r" by (simp only: \<open>2 ^ 23 * ulp y = 2 powi (expo y)\<close>)
    moreover have "(2::real) powi (expo b + 1) \<le> 2 powi (expo y)"
      using lt by (rule power_int_increasing) simp
    moreover have "\<bar>b\<bar> < 2 powi (expo b + 1)" by (rule expo_upper)
    ultimately show ?thesis by linarith
  qed
  have "(0::real) < 2 ^ 128" by simp
  with br b(2) have "- (2 ^ 128) < r" by linarith
  with br show ?thesis
    by (simp add: round_f32_def Let_def fle_def flip: n_def r_def)
qed

subsection \<open>The rounding error\<close>

lemma rne_error: "\<bar>real_of_int (rne y) - y\<bar> \<le> 1 / 2"
proof -
  have "real_of_int \<lfloor>y\<rfloor> \<le> y" "y < real_of_int \<lfloor>y\<rfloor> + 1" by linarith+
  then show ?thesis by (simp add: rne_def Let_def)
qed

lemma round_raw_error: "\<bar>real_of_int (rne (x / ulp x)) * ulp x - x\<bar> \<le> ulp x / 2"
proof -
  have u: "0 < ulp x" by (rule ulp_pos)
  have "real_of_int (rne (x / ulp x)) * ulp x - x = (real_of_int (rne (x / ulp x)) - x / ulp x) * ulp x"
    using u by (simp add: algebra_simps)
  then have "\<bar>real_of_int (rne (x / ulp x)) * ulp x - x\<bar> =
      \<bar>real_of_int (rne (x / ulp x)) - x / ulp x\<bar> * ulp x"
    using u by (simp add: abs_mult)
  also have "\<dots> \<le> 1 / 2 * ulp x"
    using rne_error [of "x / ulp x"] u by (intro mult_right_mono) simp_all
  finally show ?thesis by simp
qed

lemma round_f32_error: "round_f32 x = Fin r \<Longrightarrow> \<bar>r - x\<bar> \<le> ulp x / 2"
  using round_raw_error [of x] by (simp add: round_f32_def Let_def split: if_splits)

lemma round_f32_PInf_bound: "round_f32 x = PInf \<Longrightarrow> 2 ^ 128 \<le> x + ulp x / 2"
proof -
  assume "round_f32 x = PInf"
  then have "2 ^ 128 \<le> real_of_int (rne (x / ulp x)) * ulp x"
    by (simp add: round_f32_def Let_def split: if_splits)
  with round_raw_error [of x] show ?thesis by linarith
qed

lemma ulp_mono: "\<bar>x\<bar> \<le> \<bar>y\<bar> \<Longrightarrow> ulp x \<le> ulp y"
proof -
  assume "\<bar>x\<bar> \<le> \<bar>y\<bar>"
  then have "expo x - 23 \<le> expo y - 23" using expo_mono [of x y] by simp
  then show ?thesis unfolding ulp_def by (rule power_int_increasing) simp
qed



section \<open>The boost\<close>

lemma is_f32_5_2: "is_f32 (5 / 2)"
  by (simp add: is_f32_def ulp_def expo_def ilog2_def compute_bitlen)

text \<open>
  Claim C9. \<^verbatim>\<open>giveBoost\<close> sets \<^verbatim>\<open>m_boost_amount\<close> to 2.5 (a number that a
  \<^verbatim>\<open>float\<close> holds exactly) whatever it was, and changes nothing else. A second call
  changes nothing more, and a boost given while an earlier one decays starts from 2.5 again.
\<close>

theorem giveBoost_resets:
  "m_boost_amount (pp (giveBoost w)) = Fin (5 / 2) \<and> is_f32 (5 / 2) \<and>
   giveBoost w = w\<lparr>pp := (pp w)\<lparr>m_boost_amount := Fin (5 / 2)\<rparr>\<rparr> \<and>
   giveBoost (giveBoost w) = giveBoost w \<and>
   m_boost_amount (pp (giveBoost (update dt (giveBoost w)))) = Fin (5 / 2)"
  by (simp add: giveBoost_def is_f32_5_2)

section \<open>The decay\<close>

lemma fle_Fin_left: "fle (Fin b) x \<Longrightarrow> x = PInf \<or> (\<exists>q. x = Fin q \<and> b \<le> q)"
  by (cases x) (simp_all add: fle_def)

lemma fle_Fin_right: "fle x (Fin b) \<Longrightarrow> x = NInf \<or> (\<exists>q. x = Fin q \<and> q \<le> b)"
  by (cases x) (simp_all add: fle_def)

lemma boost_update:
  "m_boost_amount (pp (update dt w)) =
     (if fgt (m_boost_amount (pp w)) (Fin 0)
      then if flt (fsub (m_boost_amount (pp w)) (fmul dt (Fin (7 / 2)))) (Fin 0) then Fin 0
           else fsub (m_boost_amount (pp w)) (fmul dt (Fin (7 / 2)))
      else m_boost_amount (pp w))"
  by (simp add: update_def Let_def)

lemma update_at_zero: "m_boost_amount (pp w) = Fin 0 \<Longrightarrow> update dt w = w"
  by (simp add: update_def fgt_def)

lemma updates_at_zero: "m_boost_amount (pp w) = Fin 0 \<Longrightarrow> updates dts w = w"
  by (induction dts) (simp_all add: update_at_zero)

lemma clamp_range:
  assumes "fle y (Fin b)" and "0 \<le> b" and "valid_f32 y"
  shows "\<exists>b'. (if flt y (Fin 0) then Fin 0 else y) = Fin b' \<and> is_f32 b' \<and> 0 \<le> b' \<and> b' \<le> b"
proof -
  from fle_Fin_right [OF assms(1)] show ?thesis
  proof
    assume "y = NInf"
    with assms(2) show ?thesis by (simp add: is_f32_0)
  next
    assume "\<exists>q. y = Fin q \<and> q \<le> b"
    then obtain q where q: "y = Fin q" "q \<le> b" by blast
    with assms(2,3) show ?thesis by (cases "q < 0") (simp_all add: is_f32_0)
  qed
qed

lemma update_range:
  assumes b: "m_boost_amount (pp w) = Fin b" "is_f32 b" "0 \<le> b"
    and d: "is_f32 d" "0 \<le> d"
  shows "\<exists>b'. m_boost_amount (pp (update (Fin d) w)) = Fin b' \<and> is_f32 b' \<and> 0 \<le> b' \<and> b' \<le> b"
proof (cases "0 < b")
  case False
  with b show ?thesis by (simp add: boost_update fgt_def)
next
  case True
  have "0 \<le> d * (7 / 2)" using d(2) by simp
  with is_f32_0 have "fle (Fin 0) (round_f32 (d * (7 / 2)))" by (intro round_f32_lower) simp_all
  from fle_Fin_left [OF this] show ?thesis
  proof
    assume "round_f32 (d * (7 / 2)) = PInf"
    with b True show ?thesis by (simp add: boost_update fgt_def is_f32_0)
  next
    assume "\<exists>q. round_f32 (d * (7 / 2)) = Fin q \<and> 0 \<le> q"
    then obtain q where q: "round_f32 (d * (7 / 2)) = Fin q" "0 \<le> q" by blast
    from q(2) have "b - q \<le> b" by simp
    with b(2,3) have le: "fle (round_f32 (b - q)) (Fin b)" by (rule round_f32_upper)
    have "valid_f32 (round_f32 (b - q))"
      by (cases "round_f32 (b - q)") (simp_all add: round_f32_finite)
    then have "\<exists>b'. (if flt (round_f32 (b - q)) (Fin 0) then Fin 0 else round_f32 (b - q)) =
        Fin b' \<and> is_f32 b' \<and> 0 \<le> b' \<and> b' \<le> b"
      by (rule clamp_range [OF le b(3)])
    moreover have "m_boost_amount (pp (update (Fin d) w)) =
        (if flt (round_f32 (b - q)) (Fin 0) then Fin 0 else round_f32 (b - q))"
      using b(1) True q(1) by (simp add: boost_update fgt_def)
    ultimately show ?thesis by (simp only:)
  qed
qed

lemma update_to_zero:
  assumes b: "m_boost_amount (pp w) = Fin b" "is_f32 b" "0 \<le> b"
    and d: "b \<le> d * (7 / 2)"
  shows "m_boost_amount (pp (update (Fin d) w)) = Fin 0"
proof (cases "0 < b")
  case False
  with b show ?thesis by (simp add: boost_update fgt_def)
next
  case True
  from b(2,3) d have "fle (Fin b) (round_f32 (d * (7 / 2)))" by (rule round_f32_lower)
  from fle_Fin_left [OF this] show ?thesis
  proof
    assume "round_f32 (d * (7 / 2)) = PInf"
    with b True show ?thesis by (simp add: boost_update fgt_def)
  next
    assume "\<exists>q. round_f32 (d * (7 / 2)) = Fin q \<and> b \<le> q"
    then obtain q where q: "round_f32 (d * (7 / 2)) = Fin q" "b \<le> q" by blast
    from q(2) have "b - q \<le> 0" by simp
    with is_f32_0 have "fle (round_f32 (b - q)) (Fin 0)" by (intro round_f32_upper) simp_all
    from fle_Fin_right [OF this] have "(if flt (round_f32 (b - q)) (Fin 0) then Fin 0
        else round_f32 (b - q)) = Fin 0"
      by auto
    moreover have "m_boost_amount (pp (update (Fin d) w)) =
        (if flt (round_f32 (b - q)) (Fin 0) then Fin 0 else round_f32 (b - q))"
      using b(1) True q(1) by (simp add: boost_update fgt_def)
    ultimately show ?thesis by (simp only:)
  qed
qed

lemma update_exact:
  assumes b: "m_boost_amount (pp w) = Fin b" "0 < b"
    and d: "is_f32 (d * (7 / 2))" "is_f32 (b - d * (7 / 2))" "0 \<le> b - d * (7 / 2)"
  shows "m_boost_amount (pp (update (Fin d) w)) = Fin (b - d * (7 / 2))"
proof -
  have 1: "fmul (Fin d) (Fin (7 / 2)) = Fin (d * (7 / 2))"
    by (simp only: fmul.simps round_f32_exact [OF d(1)])
  have 2: "fsub (Fin b) (Fin (d * (7 / 2))) = Fin (b - d * (7 / 2))"
    by (simp only: fsub.simps round_f32_exact [OF d(2)])
  from b(2) have 3: "fgt (Fin b) (Fin 0)" by (simp add: fgt_def)
  from d(3) have 4: "\<not> flt (Fin (b - d * (7 / 2))) (Fin 0)" by simp
  show ?thesis by (simp only: boost_update b(1) 1 2 3 4 if_True if_False)
qed

lemma updates_range:
  assumes "m_boost_amount (pp w) = Fin b" "is_f32 b" "0 \<le> b"
    and "\<forall>d \<in> set ds. is_f32 d \<and> 0 \<le> d"
  shows "\<exists>b'. m_boost_amount (pp (updates (map Fin ds) w)) = Fin b' \<and> is_f32 b' \<and> 0 \<le> b' \<and> b' \<le> b"
  using assms
proof (induction ds arbitrary: w b)
  case Nil
  then show ?case by simp
next
  case (Cons d ds)
  from Cons.prems(4) have d: "is_f32 d" "0 \<le> d" and ds: "\<forall>d \<in> set ds. is_f32 d \<and> 0 \<le> d"
    by simp_all
  from update_range [OF Cons.prems(1-3) d] obtain c
    where c: "m_boost_amount (pp (update (Fin d) w)) = Fin c" "is_f32 c" "0 \<le> c" "c \<le> b"
    by blast
  from Cons.IH [OF c(1-3) ds] c(4) show ?case by auto
qed

lemma updates_to_zero:
  assumes "m_boost_amount (pp w) = Fin b" "is_f32 b" "0 \<le> b"
    and "\<forall>d \<in> set ds. is_f32 d \<and> 0 \<le> d" and "\<exists>d \<in> set ds. b \<le> d * (7 / 2)"
  shows "m_boost_amount (pp (updates (map Fin ds) w)) = Fin 0"
  using assms
proof (induction ds arbitrary: w b)
  case Nil
  then show ?case by simp
next
  case (Cons d ds)
  from Cons.prems(4) have d: "is_f32 d" "0 \<le> d" and ds: "\<forall>d \<in> set ds. is_f32 d \<and> 0 \<le> d"
    by simp_all
  show ?case
  proof (cases "b \<le> d * (7 / 2)")
    case True
    from update_to_zero [OF Cons.prems(1-3) True] show ?thesis
      by (simp add: updates_at_zero)
  next
    case False
    with Cons.prems(5) obtain d' where d': "d' \<in> set ds" "b \<le> d' * (7 / 2)" by auto
    from update_range [OF Cons.prems(1-3) d] obtain c
      where c: "m_boost_amount (pp (update (Fin d) w)) = Fin c" "is_f32 c" "0 \<le> c" "c \<le> b"
      by blast
    from d' c(4) have "\<exists>d \<in> set ds. c \<le> d * (7 / 2)" by (intro bexI [of _ d']) simp_all
    from Cons.IH [OF c(1-3) ds this] show ?thesis by simp
  qed
qed

lemmas f32_eval = round_f32_def ulp_def expo_def ilog2_def rne_def compute_bitlen Let_def
  is_f32_def

lemma updates_replicate_fixed: "update d w = w \<Longrightarrow> updates (replicate n d) w = w"
  by (induction n) simp_all

lemma is_f32_samples:
  "is_f32 (1 / 64)" "is_f32 1" "is_f32 (7 / 128)" "is_f32 (313 / 128)"
  "is_f32 (1 / 2 ^ 30)" "is_f32 (8947849 / 2 ^ 29)" "is_f32 (2 ^ 127)" "is_f32 (- (2 ^ 127))"
  "is_f32 (7 / 2)"
  by (simp_all add: f32_eval)

text \<open>
  One step from a positive boost: either the boost is set to zero, and then the exact
  difference less the rounding error of the product is not positive, or it is set to a
  float within the two rounding errors of the exact difference.
\<close>

lemma update_step_cases:
  assumes b: "m_boost_amount (pp w) = Fin b" "is_f32 b" "0 < b" and d: "0 \<le> d"
  obtains (zero) "m_boost_amount (pp (update (Fin d) w)) = Fin 0"
      "b - d * (7 / 2) - ulp (d * (7 / 2)) / 2 \<le> 0"
    | (near) r where "m_boost_amount (pp (update (Fin d) w)) = Fin r" "0 \<le> r"
      "\<bar>r - (b - d * (7 / 2))\<bar> \<le> ulp (d * (7 / 2)) / 2 + ulp b / 2"
proof -
  define x where "x = d * (7 / 2)"
  have x0: "0 \<le> x" using d by (simp add: x_def)
  have new: "m_boost_amount (pp (update (Fin d) w)) =
      (if flt (fsub (Fin b) (round_f32 x)) (Fin 0) then Fin 0 else fsub (Fin b) (round_f32 x))"
    using b(1,3) by (simp add: boost_update fgt_def x_def)
  from b(2) have blt: "b < 2 ^ 128" by (simp add: is_f32_def abs_less_iff)
  from x0 is_f32_0 have "fle (Fin 0) (round_f32 x)" by (intro round_f32_lower) simp_all
  from fle_Fin_left [OF this] show ?thesis
  proof
    assume inf: "round_f32 x = PInf"
    then have "m_boost_amount (pp (update (Fin d) w)) = Fin 0" by (simp add: new)
    moreover from round_f32_PInf_bound [OF inf] blt have "b - x - ulp x / 2 \<le> 0" by linarith
    ultimately show ?thesis unfolding x_def by (rule zero)
  next
    assume "\<exists>q. round_f32 x = Fin q \<and> 0 \<le> q"
    then obtain q where q: "round_f32 x = Fin q" "0 \<le> q" by blast
    from round_f32_error [OF q(1)] have qe: "\<bar>q - x\<bar> \<le> ulp x / 2" .
    have new': "m_boost_amount (pp (update (Fin d) w)) =
        (if flt (round_f32 (b - q)) (Fin 0) then Fin 0 else round_f32 (b - q))"
      by (simp add: new q(1))
    show ?thesis
    proof (cases "b - q < 0")
      case True
      with is_f32_0 have "fle (round_f32 (b - q)) (Fin 0)" by (intro round_f32_upper) simp_all
      from fle_Fin_right [OF this] have "(if flt (round_f32 (b - q)) (Fin 0) then Fin 0
          else round_f32 (b - q)) = Fin 0"
        by auto
      with new' have "m_boost_amount (pp (update (Fin d) w)) = Fin 0" by (simp only:)
      moreover from True qe have "b - x - ulp x / 2 \<le> 0" by linarith
      ultimately show ?thesis unfolding x_def by (rule zero)
    next
      case False
      then have y0: "0 \<le> b - q" by simp
      with is_f32_0 have "fle (Fin 0) (round_f32 (b - q))" by (intro round_f32_lower) simp_all
      from fle_Fin_left [OF this] show ?thesis
      proof
        assume "round_f32 (b - q) = PInf"
        moreover from q(2) b(2,3) have "fle (round_f32 (b - q)) (Fin b)"
          by (intro round_f32_upper) simp_all
        ultimately show ?thesis by (simp add: fle_def)
      next
        assume "\<exists>r. round_f32 (b - q) = Fin r \<and> 0 \<le> r"
        then obtain r where r: "round_f32 (b - q) = Fin r" "0 \<le> r" by blast
        then have 1: "m_boost_amount (pp (update (Fin d) w)) = Fin r" by (simp add: new')
        from y0 q(2) b(3) have "\<bar>b - q\<bar> \<le> \<bar>b\<bar>" by simp
        then have "ulp (b - q) \<le> ulp b" by (rule ulp_mono)
        with round_f32_error [OF r(1)] qe
        have "\<bar>r - (b - x)\<bar> \<le> ulp x / 2 + ulp b / 2" by linarith
        with 1 r(2) show ?thesis unfolding x_def by (rule near)
      qed
    qed
  qed
qed

lemma ulp_nonneg: "0 \<le> ulp x"
  using ulp_pos [of x] by simp

lemma update_step_bounds:
  assumes b: "m_boost_amount (pp w) = Fin b" "is_f32 b" "0 \<le> b" "b \<le> c"
    and d: "is_f32 d" "0 \<le> d"
  shows "\<exists>b'. m_boost_amount (pp (update (Fin d) w)) = Fin b' \<and> is_f32 b' \<and> 0 \<le> b' \<and> b' \<le> b \<and>
    b' \<le> max 0 (b - (d * (7 / 2) - ulp (d * (7 / 2)) / 2 - ulp c / 2)) \<and>
    b - (d * (7 / 2) + ulp (d * (7 / 2)) / 2 + ulp c / 2) \<le> b'"
proof -
  from update_range [OF b(1-3) d] obtain b'
    where b': "m_boost_amount (pp (update (Fin d) w)) = Fin b'" "is_f32 b'" "0 \<le> b'" "b' \<le> b"
    by blast
  from b(3,4) have "\<bar>b\<bar> \<le> \<bar>c\<bar>" by simp
  then have uc: "ulp b \<le> ulp c" by (rule ulp_mono)
  have "b' \<le> max 0 (b - (d * (7 / 2) - ulp (d * (7 / 2)) / 2 - ulp c / 2)) \<and>
    b - (d * (7 / 2) + ulp (d * (7 / 2)) / 2 + ulp c / 2) \<le> b'"
  proof (cases "0 < b")
    case False
    with b(3) b'(3,4) have "b = 0" "b' = 0" by simp_all
    with d(2) ulp_nonneg [of "d * (7 / 2)"] ulp_nonneg [of c] show ?thesis by simp
  next
    case True
    from b(1,2) True d(2) show ?thesis
    proof (cases rule: update_step_cases)
      case zero
      with b'(1) have "b' = 0" by simp
      with zero(2) ulp_nonneg [of c] show ?thesis by simp
    next
      case (near r)
      with b'(1) have "b' = r" by simp
      with near(3) uc show ?thesis by (simp add: abs_le_iff) linarith
    qed
  qed
  with b' show ?thesis by blast
qed

lemma updates_bounds:
  assumes "m_boost_amount (pp w) = Fin b" "is_f32 b" "0 \<le> b" "b \<le> c"
    and "\<forall>d \<in> set ds. is_f32 d \<and> 0 \<le> d"
  shows "\<exists>b'. m_boost_amount (pp (updates (map Fin ds) w)) = Fin b' \<and>
    b' \<le> max 0 (b - (\<Sum>d\<leftarrow>ds. d * (7 / 2) - ulp (d * (7 / 2)) / 2 - ulp c / 2)) \<and>
    b - (\<Sum>d\<leftarrow>ds. d * (7 / 2) + ulp (d * (7 / 2)) / 2 + ulp c / 2) \<le> b'"
  using assms
proof (induction ds arbitrary: w b)
  case Nil
  then show ?case by simp
next
  case (Cons d ds)
  from Cons.prems(5) have d: "is_f32 d" "0 \<le> d" and ds: "\<forall>d \<in> set ds. is_f32 d \<and> 0 \<le> d"
    by simp_all
  from update_step_bounds [OF Cons.prems(1-4) d] obtain b1
    where b1: "m_boost_amount (pp (update (Fin d) w)) = Fin b1" "is_f32 b1" "0 \<le> b1" "b1 \<le> b"
      "b1 \<le> max 0 (b - (d * (7 / 2) - ulp (d * (7 / 2)) / 2 - ulp c / 2))"
      "b - (d * (7 / 2) + ulp (d * (7 / 2)) / 2 + ulp c / 2) \<le> b1"
    by blast
  from b1(4) Cons.prems(4) have "b1 \<le> c" by simp
  from Cons.IH [OF b1(1-3) this ds] obtain b'
    where b': "m_boost_amount (pp (updates (map Fin ds) (update (Fin d) w))) = Fin b'"
      "b' \<le> max 0 (b1 - (\<Sum>d\<leftarrow>ds. d * (7 / 2) - ulp (d * (7 / 2)) / 2 - ulp c / 2))"
      "b1 - (\<Sum>d\<leftarrow>ds. d * (7 / 2) + ulp (d * (7 / 2)) / 2 + ulp c / 2) \<le> b'"
    by blast
  have up: "b' \<le> max 0 (b - (\<Sum>d\<leftarrow>d # ds. d * (7 / 2) - ulp (d * (7 / 2)) / 2 - ulp c / 2))"
  proof (cases "b1 = 0")
    case True
    with b1(1) have "updates (map Fin ds) (update (Fin d) w) = update (Fin d) w"
      by (intro updates_at_zero) simp
    with b'(1) b1(1) True have "b' = 0" by simp
    then show ?thesis by simp
  next
    case False
    with b1(3,5) have "b1 \<le> b - (d * (7 / 2) - ulp (d * (7 / 2)) / 2 - ulp c / 2)" by simp
    with b'(2) show ?thesis by simp
  qed
  have lo: "b - (\<Sum>d\<leftarrow>d # ds. d * (7 / 2) + ulp (d * (7 / 2)) / 2 + ulp c / 2) \<le> b'"
    using b1(6) b'(3) by simp
  from b'(1) up lo show ?case by simp
qed

lemma fle_Fin_Fin: "fle (Fin a) (Fin c) \<longleftrightarrow> a \<le> c"
  by (auto simp add: fle_def)

lemma fge_Fin_Fin: "fge (Fin a) (Fin c) \<longleftrightarrow> c \<le> a"
  by (auto simp add: fge_def fle_def)

lemma updates_exact:
  assumes "m_boost_amount (pp w) = Fin b" "is_f32 b" "0 \<le> b"
    and "\<forall>d \<in> set ds. 0 \<le> d" and "exact_from b ds"
  shows "m_boost_amount (pp (updates (map Fin ds) w)) = Fin (max 0 (b - (\<Sum>d\<leftarrow>ds. d * (7 / 2))))"
  using assms
proof (induction ds arbitrary: w b)
  case Nil
  then show ?case by simp
next
  case (Cons d ds)
  from Cons.prems(4) have ds: "\<forall>d \<in> set ds. 0 \<le> d" by simp
  then have "\<And>x. x \<in> set (map (\<lambda>d. d * (7 / 2)) ds) \<Longrightarrow> 0 \<le> x" by auto
  then have rest: "0 \<le> (\<Sum>d\<leftarrow>ds. d * (7 / 2))" by (rule sum_list_nonneg)
  show ?case
  proof (cases "b \<le> d * (7 / 2)")
    case True
    from update_to_zero [OF Cons.prems(1-3) True]
    have "m_boost_amount (pp (updates (map Fin (d # ds)) w)) = Fin 0"
      by (simp add: updates_at_zero)
    moreover from True rest have "max 0 (b - (\<Sum>d\<leftarrow>d # ds. d * (7 / 2))) = 0" by simp
    ultimately show ?thesis by (simp only:)
  next
    case False
    with Cons.prems(5) have e: "is_f32 (d * (7 / 2))" "is_f32 (b - d * (7 / 2))"
      "exact_from (b - d * (7 / 2)) ds"
      by simp_all
    from False have pos: "0 \<le> b - d * (7 / 2)" by simp
    from Cons.prems(4) False have "0 < b"
      by (metis less_le_trans linorder_not_le list.set_intros(1) mult_nonneg_nonneg
          zero_le_divide_iff zero_le_numeral)
    from update_exact [OF Cons.prems(1) this e(1,2) pos]
    have "m_boost_amount (pp (update (Fin d) w)) = Fin (b - d * (7 / 2))" .
    from Cons.IH [OF this e(2) pos ds e(3)] show ?thesis by (simp add: algebra_simps)
  qed
qed

lemma sum_scaled: "(\<Sum>d\<leftarrow>ds. d * (7 / 2)) = sum_list ds * (7 / 2 :: real)"
  by (induction ds) (simp_all add: algebra_simps)

lemma updates_exact_zero:
  assumes "m_boost_amount (pp w) = Fin b" "is_f32 b" "0 \<le> b"
    and "\<forall>d \<in> set ds. 0 \<le> d" and "exact_from b ds" and "b / (7 / 2) \<le> sum_list ds"
  shows "m_boost_amount (pp (updates (map Fin ds) w)) = Fin 0"
proof -
  from assms(6) have "b \<le> sum_list ds * (7 / 2)" by (simp add: field_simps)
  then have "b \<le> (\<Sum>d\<leftarrow>ds. d * (7 / 2))" by (simp only: sum_scaled)
  then have "max 0 (b - (\<Sum>d\<leftarrow>ds. d * (7 / 2))) = 0" by simp
  with updates_exact [OF assms(1-5)] show ?thesis by (simp only:)
qed

text \<open>
  Claim C2, amended. Once the boost is triggered (\<^verbatim>\<open>m_boost_amount\<close> a finite float
  above zero) and for every finite float \<^verbatim>\<open>dt >= 0\<close>, \<^verbatim>\<open>update(dt)\<close> sets
  \<^verbatim>\<open>m_boost_amount\<close> to the float nearest to the difference of \<^verbatim>\<open>m_boost_amount\<close>
  and the float nearest to \<^verbatim>\<open>dt * 3.5\<close>, or to 0 when that is negative. This never
  increases it and keeps it a finite float that is not negative. Unless set to 0, the new
  value is within half a grid step at \<^verbatim>\<open>dt * 3.5\<close> plus half a grid step at the old
  value of the exact difference; it is the exact difference whenever that and the product
  are floats. An update with \<^verbatim>\<open>dt * 3.5 >= m_boost_amount\<close> brings it to exactly 0.
  A sequence of updates with \<^verbatim>\<open>dt >= 0\<close> never increases it and leaves it within the
  summed rounding errors of the initial amount less the sum of \<^verbatim>\<open>dt * 3.5\<close>, or at 0;
  it brings it to exactly 0 as soon as the terms \<^verbatim>\<open>dt * 3.5\<close>, each less its two half
  grid steps, sum to at least the initial amount, and also when one \<^verbatim>\<open>dt * 3.5\<close> alone
  is at least the initial amount. When no update of the sequence rounds, it leaves exactly
  the initial amount less the sum of \<^verbatim>\<open>dt * 3.5\<close>, or 0 when that is negative, and so 0
  when the \<^verbatim>\<open>dt\<close> sum to at least the initial amount over 3.5. At 0 every further
  update leaves it.
\<close>

theorem update_decays:
  assumes "m_boost_amount (pp w) = Fin b" and "is_f32 b" and "0 < b"
    and "is_f32 dt" and "0 \<le> dt"
  shows
   "m_boost_amount (pp (update (Fin dt) w)) =
      (if flt (fsub (Fin b) (fmul (Fin dt) (Fin (7 / 2)))) (Fin 0) then Fin 0
       else fsub (Fin b) (fmul (Fin dt) (Fin (7 / 2)))) \<and>
    finite_f32 (m_boost_amount (pp (update (Fin dt) w))) \<and>
    fge (m_boost_amount (pp (update (Fin dt) w))) (Fin 0) \<and>
    fle (m_boost_amount (pp (update (Fin dt) w))) (Fin b) \<and>
    fle (m_boost_amount (pp (update (Fin dt) w)))
      (Fin (max 0 (b - (dt * (7 / 2) - ulp (dt * (7 / 2)) / 2 - ulp b / 2)))) \<and>
    fge (m_boost_amount (pp (update (Fin dt) w)))
      (Fin (b - (dt * (7 / 2) + ulp (dt * (7 / 2)) / 2 + ulp b / 2))) \<and>
    (is_f32 (dt * (7 / 2)) \<and> is_f32 (b - dt * (7 / 2)) \<and> 0 \<le> b - dt * (7 / 2) \<longrightarrow>
       m_boost_amount (pp (update (Fin dt) w)) = Fin (b - dt * (7 / 2))) \<and>
    (b \<le> dt * (7 / 2) \<longrightarrow> m_boost_amount (pp (update (Fin dt) w)) = Fin 0) \<and>
    ((\<forall>d \<in> set dts. is_f32 d \<and> 0 \<le> d) \<longrightarrow>
       finite_f32 (m_boost_amount (pp (updates (map Fin dts) w))) \<and>
       fge (m_boost_amount (pp (updates (map Fin dts) w))) (Fin 0) \<and>
       fle (m_boost_amount (pp (updates (map Fin dts) w))) (Fin b) \<and>
       fle (m_boost_amount (pp (updates (map Fin dts) w)))
         (Fin (max 0 (b - (\<Sum>d\<leftarrow>dts. d * (7 / 2) - ulp (d * (7 / 2)) / 2 - ulp b / 2)))) \<and>
       fge (m_boost_amount (pp (updates (map Fin dts) w)))
         (Fin (b - (\<Sum>d\<leftarrow>dts. d * (7 / 2) + ulp (d * (7 / 2)) / 2 + ulp b / 2)))) \<and>
    ((\<forall>d \<in> set dts. is_f32 d \<and> 0 \<le> d) \<and>
     b \<le> (\<Sum>d\<leftarrow>dts. d * (7 / 2) - ulp (d * (7 / 2)) / 2 - ulp b / 2) \<longrightarrow>
       m_boost_amount (pp (updates (map Fin dts) w)) = Fin 0 \<and>
       updates later (updates (map Fin dts) w) = updates (map Fin dts) w) \<and>
    ((\<forall>d \<in> set dts. is_f32 d \<and> 0 \<le> d) \<and> (\<exists>d \<in> set dts. b \<le> d * (7 / 2)) \<longrightarrow>
       m_boost_amount (pp (updates (map Fin dts) w)) = Fin 0 \<and>
       updates later (updates (map Fin dts) w) = updates (map Fin dts) w) \<and>
    ((\<forall>d \<in> set dts. 0 \<le> d) \<and> exact_from b dts \<longrightarrow>
       m_boost_amount (pp (updates (map Fin dts) w)) =
         Fin (max 0 (b - (\<Sum>d\<leftarrow>dts. d * (7 / 2))))) \<and>
    ((\<forall>d \<in> set dts. 0 \<le> d) \<and> exact_from b dts \<and> b / (7 / 2) \<le> sum_list dts \<longrightarrow>
       m_boost_amount (pp (updates (map Fin dts) w)) = Fin 0)"
proof -
  from assms(3) have b0: "0 \<le> b" by simp
  note b = assms(1,2) b0
  have 0: "m_boost_amount (pp (update (Fin dt) w)) =
      (if flt (fsub (Fin b) (fmul (Fin dt) (Fin (7 / 2)))) (Fin 0) then Fin 0
       else fsub (Fin b) (fmul (Fin dt) (Fin (7 / 2))))"
    using assms(3) by (simp only: boost_update assms(1) fgt_def flt.simps if_True)
  from update_step_bounds [OF b order_refl assms(4,5)] obtain b'
    where b': "m_boost_amount (pp (update (Fin dt) w)) = Fin b'" "is_f32 b'" "0 \<le> b'" "b' \<le> b"
      "b' \<le> max 0 (b - (dt * (7 / 2) - ulp (dt * (7 / 2)) / 2 - ulp b / 2))"
      "b - (dt * (7 / 2) + ulp (dt * (7 / 2)) / 2 + ulp b / 2) \<le> b'"
    by blast
  have 1: "finite_f32 (m_boost_amount (pp (update (Fin dt) w))) \<and>
    fge (m_boost_amount (pp (update (Fin dt) w))) (Fin 0) \<and>
    fle (m_boost_amount (pp (update (Fin dt) w))) (Fin b) \<and>
    fle (m_boost_amount (pp (update (Fin dt) w)))
      (Fin (max 0 (b - (dt * (7 / 2) - ulp (dt * (7 / 2)) / 2 - ulp b / 2)))) \<and>
    fge (m_boost_amount (pp (update (Fin dt) w)))
      (Fin (b - (dt * (7 / 2) + ulp (dt * (7 / 2)) / 2 + ulp b / 2)))"
    using b'(2-6) by (simp only: b'(1) finite_f32.simps fle_Fin_Fin fge_Fin_Fin)
  have 2: "is_f32 (dt * (7 / 2)) \<and> is_f32 (b - dt * (7 / 2)) \<and> 0 \<le> b - dt * (7 / 2) \<longrightarrow>
       m_boost_amount (pp (update (Fin dt) w)) = Fin (b - dt * (7 / 2))"
    using update_exact [OF assms(1,3)] by blast
  have 3: "b \<le> dt * (7 / 2) \<longrightarrow> m_boost_amount (pp (update (Fin dt) w)) = Fin 0"
    using update_to_zero [OF b] by blast
  have 4: "(\<forall>d \<in> set dts. is_f32 d \<and> 0 \<le> d) \<longrightarrow>
       finite_f32 (m_boost_amount (pp (updates (map Fin dts) w))) \<and>
       fge (m_boost_amount (pp (updates (map Fin dts) w))) (Fin 0) \<and>
       fle (m_boost_amount (pp (updates (map Fin dts) w))) (Fin b) \<and>
       fle (m_boost_amount (pp (updates (map Fin dts) w)))
         (Fin (max 0 (b - (\<Sum>d\<leftarrow>dts. d * (7 / 2) - ulp (d * (7 / 2)) / 2 - ulp b / 2)))) \<and>
       fge (m_boost_amount (pp (updates (map Fin dts) w)))
         (Fin (b - (\<Sum>d\<leftarrow>dts. d * (7 / 2) + ulp (d * (7 / 2)) / 2 + ulp b / 2)))"
  proof
    assume ds: "\<forall>d \<in> set dts. is_f32 d \<and> 0 \<le> d"
    from updates_range [OF b ds] obtain c
      where c: "m_boost_amount (pp (updates (map Fin dts) w)) = Fin c" "is_f32 c" "0 \<le> c" "c \<le> b"
      by blast
    from updates_bounds [OF b order_refl ds] c(1)
    have "c \<le> max 0 (b - (\<Sum>d\<leftarrow>dts. d * (7 / 2) - ulp (d * (7 / 2)) / 2 - ulp b / 2))"
      "b - (\<Sum>d\<leftarrow>dts. d * (7 / 2) + ulp (d * (7 / 2)) / 2 + ulp b / 2) \<le> c"
      by auto
    with c(2-4) show "finite_f32 (m_boost_amount (pp (updates (map Fin dts) w))) \<and>
       fge (m_boost_amount (pp (updates (map Fin dts) w))) (Fin 0) \<and>
       fle (m_boost_amount (pp (updates (map Fin dts) w))) (Fin b) \<and>
       fle (m_boost_amount (pp (updates (map Fin dts) w)))
         (Fin (max 0 (b - (\<Sum>d\<leftarrow>dts. d * (7 / 2) - ulp (d * (7 / 2)) / 2 - ulp b / 2)))) \<and>
       fge (m_boost_amount (pp (updates (map Fin dts) w)))
         (Fin (b - (\<Sum>d\<leftarrow>dts. d * (7 / 2) + ulp (d * (7 / 2)) / 2 + ulp b / 2)))"
      by (simp only: c(1) finite_f32.simps fle_Fin_Fin fge_Fin_Fin)
  qed
  have 5: "(\<forall>d \<in> set dts. is_f32 d \<and> 0 \<le> d) \<and>
     b \<le> (\<Sum>d\<leftarrow>dts. d * (7 / 2) - ulp (d * (7 / 2)) / 2 - ulp b / 2) \<longrightarrow>
       m_boost_amount (pp (updates (map Fin dts) w)) = Fin 0 \<and>
       updates later (updates (map Fin dts) w) = updates (map Fin dts) w"
  proof
    assume a: "(\<forall>d \<in> set dts. is_f32 d \<and> 0 \<le> d) \<and>
      b \<le> (\<Sum>d\<leftarrow>dts. d * (7 / 2) - ulp (d * (7 / 2)) / 2 - ulp b / 2)"
    then have ds: "\<forall>d \<in> set dts. is_f32 d \<and> 0 \<le> d" by blast
    from updates_range [OF b ds] obtain c
      where c: "m_boost_amount (pp (updates (map Fin dts) w)) = Fin c" "0 \<le> c"
      by blast
    from updates_bounds [OF b order_refl ds] c(1)
    have "c \<le> max 0 (b - (\<Sum>d\<leftarrow>dts. d * (7 / 2) - ulp (d * (7 / 2)) / 2 - ulp b / 2))"
      by auto
    with a c(2) have "c = 0" by simp
    with c(1) have z: "m_boost_amount (pp (updates (map Fin dts) w)) = Fin 0" by simp
    with updates_at_zero [OF z]
    show "m_boost_amount (pp (updates (map Fin dts) w)) = Fin 0 \<and>
       updates later (updates (map Fin dts) w) = updates (map Fin dts) w"
      by blast
  qed
  have 6: "(\<forall>d \<in> set dts. is_f32 d \<and> 0 \<le> d) \<and> (\<exists>d \<in> set dts. b \<le> d * (7 / 2)) \<longrightarrow>
       m_boost_amount (pp (updates (map Fin dts) w)) = Fin 0 \<and>
       updates later (updates (map Fin dts) w) = updates (map Fin dts) w"
    using updates_to_zero [OF b] updates_at_zero by blast
  have 7: "(\<forall>d \<in> set dts. 0 \<le> d) \<and> exact_from b dts \<longrightarrow>
       m_boost_amount (pp (updates (map Fin dts) w)) =
         Fin (max 0 (b - (\<Sum>d\<leftarrow>dts. d * (7 / 2))))"
    using updates_exact [OF b] by blast
  have 8: "(\<forall>d \<in> set dts. 0 \<le> d) \<and> exact_from b dts \<and> b / (7 / 2) \<le> sum_list dts \<longrightarrow>
       m_boost_amount (pp (updates (map Fin dts) w)) = Fin 0"
    using updates_exact_zero [OF b] by blast
  from 0 1 2 3 4 5 6 7 8 show ?thesis by (intro conjI) blast+
qed

lemma world_boosted_update_stalls:
  "update (Fin (1 / 2 ^ 30)) world_boosted = world_boosted"
proof -
  have "fmul (Fin (1 / 2 ^ 30)) (Fin (7 / 2)) = Fin (7 / 2 ^ 31)"
    by (simp add: f32_eval)
  moreover have "fsub (Fin (5 / 2)) (Fin (7 / 2 ^ 31)) = Fin (5 / 2)"
    by (simp add: f32_eval)
  ultimately have "update (Fin (1 / 2 ^ 30)) world_boosted =
      world_boosted\<lparr>pp := (pp world_boosted)\<lparr>m_boost_amount := m_boost_amount (pp world_boosted)\<rparr>\<rparr>"
    by (simp add: update_def world_boosted_fields fgt_def Let_def)
  then show ?thesis by simp
qed

lemma world_boosted_update_sixtieth:
  "m_boost_amount (pp (update (Fin (8947849 / 2 ^ 29)) world_boosted)) = Fin (10241092 / 2 ^ 22)"
proof -
  have "fmul (Fin (8947849 / 2 ^ 29)) (Fin (7 / 2)) = Fin (15658736 / 2 ^ 28)"
    by (simp add: f32_eval)
  moreover have "fsub (Fin (5 / 2)) (Fin (15658736 / 2 ^ 28)) = Fin (10241092 / 2 ^ 22)"
    by (simp add: f32_eval)
  ultimately show ?thesis
    by (simp add: boost_update world_boosted_fields fgt_def)
qed

text \<open>
  Claim C2, as stated, fails. From the boost 2.5 and \<^verbatim>\<open>dt\<close> \<open>= 2 powi (-30)\<close>, the
  difference \<open>2.5 - 3.5 * dt\<close> is positive and rounds back to 2.5: \<^verbatim>\<open>update\<close> does not
  decrease the boost at all, and \<open>2 ^ 30\<close> such updates, whose \<^verbatim>\<open>dt\<close> sum to 1, which
  is more than \<open>2.5 / 3.5\<close>, leave it at 2.5. From the same boost and the float nearest to
  \<open>1 / 60\<close>, the new boost is \<open>10241092 / 2 ^ 22\<close>, not \<open>2.5 - 3.5 * dt\<close>.
\<close>

theorem update_decays_counterexample:
  "m_boost_amount (pp world_boosted) = Fin (5 / 2) \<and>
   is_f32 (1 / 2 ^ 30) \<and> (0::real) \<le> 1 / 2 ^ 30 \<and> (0::real) \<le> 5 / 2 - 1 / 2 ^ 30 * (7 / 2) \<and>
   m_boost_amount (pp (update (Fin (1 / 2 ^ 30)) world_boosted)) = Fin (5 / 2) \<and>
   (5 / 2 :: real) \<noteq> 5 / 2 - 1 / 2 ^ 30 * (7 / 2) \<and>
   (5 / 2) / (7 / 2) \<le> sum_list (replicate (2 ^ 30) (1 / 2 ^ 30 :: real)) \<and>
   m_boost_amount (pp (updates (replicate (2 ^ 30) (Fin (1 / 2 ^ 30))) world_boosted)) =
     Fin (5 / 2) \<and>
   is_f32 (8947849 / 2 ^ 29) \<and> (0::real) \<le> 5 / 2 - 8947849 / 2 ^ 29 * (7 / 2) \<and>
   m_boost_amount (pp (update (Fin (8947849 / 2 ^ 29)) world_boosted)) =
     Fin (10241092 / 2 ^ 22) \<and>
   (10241092 / 2 ^ 22 :: real) \<noteq> 5 / 2 - 8947849 / 2 ^ 29 * (7 / 2)"
proof -
  have c1: "m_boost_amount (pp world_boosted) = Fin (5 / 2)"
    by (rule world_boosted_fields)
  have c2: "is_f32 (1 / 2 ^ 30)" by (rule is_f32_samples)
  have c3: "(0::real) \<le> 1 / 2 ^ 30" by simp
  have c4: "(0::real) \<le> 5 / 2 - 1 / 2 ^ 30 * (7 / 2)" by simp
  have c5: "m_boost_amount (pp (update (Fin (1 / 2 ^ 30)) world_boosted)) = Fin (5 / 2)"
    by (simp only: world_boosted_update_stalls world_boosted_fields)
  have c6: "(5 / 2 :: real) \<noteq> 5 / 2 - 1 / 2 ^ 30 * (7 / 2)" by simp
  have "sum_list (replicate (2 ^ 30) (1 / 2 ^ 30 :: real)) = 1"
    by (simp add: sum_list_replicate)
  then have c7: "(5 / 2) / (7 / 2) \<le> sum_list (replicate (2 ^ 30) (1 / 2 ^ 30 :: real))"
    by (simp only:) simp
  have c8: "m_boost_amount (pp (updates (replicate (2 ^ 30) (Fin (1 / 2 ^ 30))) world_boosted)) =
     Fin (5 / 2)"
    by (simp only: updates_replicate_fixed [OF world_boosted_update_stalls] world_boosted_fields)
  have c9: "is_f32 (8947849 / 2 ^ 29)" by (rule is_f32_samples)
  have c10: "(0::real) \<le> 5 / 2 - 8947849 / 2 ^ 29 * (7 / 2)" by simp
  have c11: "m_boost_amount (pp (update (Fin (8947849 / 2 ^ 29)) world_boosted)) =
     Fin (10241092 / 2 ^ 22)"
    by (rule world_boosted_update_sixtieth)
  have c12: "(10241092 / 2 ^ 22 :: real) \<noteq> 5 / 2 - 8947849 / 2 ^ 29 * (7 / 2)" by simp
  from c1 c2 c3 c4 c5 c6 c7 c8 c9 c10 c11 c12 show ?thesis by blast
qed

text \<open>
  Witness for the amended C2: from the boost 2.5, \<^verbatim>\<open>dt\<close> \<open>= 1 / 64\<close> decreases it by
  exactly \<open>7 / 128\<close>; \<^verbatim>\<open>dt\<close> \<open>= 1\<close> brings it to 0; the float nearest to \<open>1 / 60\<close>
  leaves it within \<open>2 powi (-22)\<close> of \<open>2.5 - 3.5 * dt\<close>; the sequence
  \<open>1 / 64, 1 / 2, 1 / 2\<close> reaches 0 by its sum and stays there; the sequence
  \<open>1 / 64, 1, 1 / 64\<close> reaches 0 by its second update; the sequences \<open>1 / 64, 1 / 64\<close>
  and \<open>1 / 2, 1 / 2\<close> do not round and leave \<open>153 / 64\<close> and 0.
\<close>

theorem update_decays_witness:
  "m_boost_amount (pp world_boosted) = Fin (5 / 2) \<and> is_f32 (5 / 2) \<and> (0::real) < 5 / 2 \<and>
   is_f32 (1 / 64) \<and> (0::real) \<le> 1 / 64 \<and>
   is_f32 (1 / 64 * (7 / 2)) \<and> is_f32 (5 / 2 - 1 / 64 * (7 / 2)) \<and>
   (0::real) \<le> 5 / 2 - 1 / 64 * (7 / 2) \<and>
   m_boost_amount (pp (update (Fin (1 / 64)) world_boosted)) = Fin (313 / 128) \<and>
   is_f32 1 \<and> (5 / 2 :: real) \<le> 1 * (7 / 2) \<and>
   m_boost_amount (pp (update (Fin 1) world_boosted)) = Fin 0 \<and>
   is_f32 (8947849 / 2 ^ 29) \<and>
   fle (m_boost_amount (pp (update (Fin (8947849 / 2 ^ 29)) world_boosted)))
     (Fin (5 / 2 - 8947849 / 2 ^ 29 * (7 / 2) + 1 / 2 ^ 22)) \<and>
   fge (m_boost_amount (pp (update (Fin (8947849 / 2 ^ 29)) world_boosted)))
     (Fin (5 / 2 - 8947849 / 2 ^ 29 * (7 / 2) - 1 / 2 ^ 22)) \<and>
   is_f32 (1 / 2) \<and>
   (5 / 2 :: real) \<le> (\<Sum>d\<leftarrow>[1 / 64, 1 / 2, 1 / 2].
      d * (7 / 2) - ulp (d * (7 / 2)) / 2 - ulp (5 / 2) / 2) \<and>
   m_boost_amount (pp (updates (map Fin [1 / 64, 1 / 2, 1 / 2]) world_boosted)) = Fin 0 \<and>
   updates [Fin 1, PInf] (updates (map Fin [1 / 64, 1 / 2, 1 / 2]) world_boosted) =
     updates (map Fin [1 / 64, 1 / 2, 1 / 2]) world_boosted \<and>
   m_boost_amount (pp (updates (map Fin [1 / 64, 1, 1 / 64]) world_boosted)) = Fin 0 \<and>
   exact_from (5 / 2) [1 / 64, 1 / 64] \<and>
   m_boost_amount (pp (updates (map Fin [1 / 64, 1 / 64]) world_boosted)) = Fin (153 / 64) \<and>
   exact_from (5 / 2) [1 / 2, 1 / 2] \<and> (5 / 2) / (7 / 2) \<le> sum_list [1 / 2, 1 / 2 :: real] \<and>
   m_boost_amount (pp (updates (map Fin [1 / 2, 1 / 2]) world_boosted)) = Fin 0"
proof -
  have b: "m_boost_amount (pp world_boosted) = Fin (5 / 2)" "is_f32 (5 / 2)" "(0::real) < 5 / 2"
    by (simp_all add: world_boosted_fields is_f32_5_2)
  have d1: "is_f32 (1 / 64)" "(0::real) \<le> 1 / 64" by (simp_all add: is_f32_samples)
  have d2: "is_f32 1" "(0::real) \<le> 1" by (simp_all add: is_f32_samples)
  have d3: "is_f32 (8947849 / 2 ^ 29)" "(0::real) \<le> 8947849 / 2 ^ 29"
    by (rule is_f32_samples) simp
  have d4: "is_f32 (1 / 2)" by (simp add: f32_eval)
  have e: "is_f32 (1 / 64 * (7 / 2))" "is_f32 (5 / 2 - 1 / 64 * (7 / 2))"
    "(0::real) \<le> 5 / 2 - 1 / 64 * (7 / 2)"
    using is_f32_samples(3,4) by simp_all
  have z: "(5 / 2 :: real) \<le> 1 * (7 / 2)" by simp
  have ds: "\<forall>d \<in> set [1 / 64, 1 / 2, 1 / 2 :: real]. is_f32 d \<and> 0 \<le> d"
    by (simp add: is_f32_samples d4)
  have sm: "(5 / 2 :: real) \<le> (\<Sum>d\<leftarrow>[1 / 64, 1 / 2, 1 / 2].
      d * (7 / 2) - ulp (d * (7 / 2)) / 2 - ulp (5 / 2) / 2)"
    by (simp add: ulp_def expo_def ilog2_def compute_bitlen)
  have ds': "\<forall>d \<in> set [1 / 64, 1, 1 / 64 :: real]. is_f32 d \<and> 0 \<le> d"
    "\<exists>d \<in> set [1 / 64, 1, 1 / 64 :: real]. 5 / 2 \<le> d * (7 / 2)"
    by (simp_all add: is_f32_samples)
  have 1: "m_boost_amount (pp (update (Fin (1 / 64)) world_boosted)) =
      Fin (5 / 2 - 1 / 64 * (7 / 2))"
    using update_decays [OF b d1, of "[]" "[]"] e by blast
  have "(5 / 2 - 1 / 64 * (7 / 2) :: real) = 313 / 128" by simp
  with 1 have x1: "m_boost_amount (pp (update (Fin (1 / 64)) world_boosted)) = Fin (313 / 128)"
    by (simp only:)
  have 2: "m_boost_amount (pp (update (Fin 1) world_boosted)) = Fin 0"
    using update_decays [OF b d2, of "[]" "[]"] z by blast
  have u: "max 0 (5 / 2 - (8947849 / 2 ^ 29 * (7 / 2) - ulp (8947849 / 2 ^ 29 * (7 / 2)) / 2
        - ulp (5 / 2) / 2)) \<le> (5 / 2 - 8947849 / 2 ^ 29 * (7 / 2) + 1 / 2 ^ 22 :: real)"
    "(5 / 2 - 8947849 / 2 ^ 29 * (7 / 2) - 1 / 2 ^ 22 :: real) \<le>
      5 / 2 - (8947849 / 2 ^ 29 * (7 / 2) + ulp (8947849 / 2 ^ 29 * (7 / 2)) / 2
        + ulp (5 / 2) / 2)"
    by (simp_all add: ulp_def expo_def ilog2_def compute_bitlen)
  have r: "fle (m_boost_amount (pp (update (Fin (8947849 / 2 ^ 29)) world_boosted)))
      (Fin (max 0 (5 / 2 - (8947849 / 2 ^ 29 * (7 / 2) - ulp (8947849 / 2 ^ 29 * (7 / 2)) / 2
        - ulp (5 / 2) / 2))))"
    "fge (m_boost_amount (pp (update (Fin (8947849 / 2 ^ 29)) world_boosted)))
      (Fin (5 / 2 - (8947849 / 2 ^ 29 * (7 / 2) + ulp (8947849 / 2 ^ 29 * (7 / 2)) / 2
        + ulp (5 / 2) / 2)))"
    using update_decays [OF b d3, of "[]" "[]"] by blast+
  have 3: "fle (m_boost_amount (pp (update (Fin (8947849 / 2 ^ 29)) world_boosted)))
     (Fin (5 / 2 - 8947849 / 2 ^ 29 * (7 / 2) + 1 / 2 ^ 22))"
    "fge (m_boost_amount (pp (update (Fin (8947849 / 2 ^ 29)) world_boosted)))
     (Fin (5 / 2 - 8947849 / 2 ^ 29 * (7 / 2) - 1 / 2 ^ 22))"
    using r u by (cases "m_boost_amount (pp (update (Fin (8947849 / 2 ^ 29)) world_boosted))";
      simp add: fle_def fge_def)+
  have 4: "m_boost_amount (pp (updates (map Fin [1 / 64, 1 / 2, 1 / 2]) world_boosted)) = Fin 0 \<and>
      updates [Fin 1, PInf] (updates (map Fin [1 / 64, 1 / 2, 1 / 2]) world_boosted) =
        updates (map Fin [1 / 64, 1 / 2, 1 / 2]) world_boosted"
    using update_decays [OF b d1, of "[1 / 64, 1 / 2, 1 / 2]" "[Fin 1, PInf]"] ds sm by blast
  have 5: "m_boost_amount (pp (updates (map Fin [1 / 64, 1, 1 / 64]) world_boosted)) = Fin 0"
    using update_decays [OF b d1, of "[1 / 64, 1, 1 / 64]" "[]"] ds' by blast
  have x6: "exact_from (5 / 2) [1 / 64, 1 / 64]" "\<forall>d \<in> set [1 / 64, 1 / 64 :: real]. 0 \<le> d"
    by (simp_all add: f32_eval)
  have "m_boost_amount (pp (updates (map Fin [1 / 64, 1 / 64]) world_boosted)) =
      Fin (max 0 (5 / 2 - (\<Sum>d\<leftarrow>[1 / 64, 1 / 64]. d * (7 / 2))))"
    using update_decays [OF b d1, of "[1 / 64, 1 / 64]" "[]"] x6 by blast
  moreover have "max 0 (5 / 2 - (\<Sum>d\<leftarrow>[1 / 64, 1 / 64]. d * (7 / 2))) = (153 / 64 :: real)"
    by simp
  ultimately have 6:
    "m_boost_amount (pp (updates (map Fin [1 / 64, 1 / 64]) world_boosted)) = Fin (153 / 64)"
    by (simp only:)
  have x7: "exact_from (5 / 2) [1 / 2, 1 / 2]" "\<forall>d \<in> set [1 / 2, 1 / 2 :: real]. 0 \<le> d"
    "(5 / 2) / (7 / 2) \<le> sum_list [1 / 2, 1 / 2 :: real]"
    by (simp_all add: f32_eval)
  have 7: "m_boost_amount (pp (updates (map Fin [1 / 2, 1 / 2]) world_boosted)) = Fin 0"
    using update_decays [OF b d1, of "[1 / 2, 1 / 2]" "[]"] x7 by blast
  from b d1 d2 d3(1) d4 e z x1 2 3 sm 4 5 x6(1) 6 x7(1,3) 7 show ?thesis
    by (intro conjI) (simp_all only:)
qed

section \<open>The boost is never negative\<close>
























end
